theory Spec2Isabelle
  imports Complex_Main "HOL-Library.AList"
begin

section \<open>Strings\<close>

text \<open>
  Python strings are modelled as \<^typ>\<open>string\<close>. The embedding covers ASCII text: the
  character classes below are the ASCII part of Python's \<^verbatim>\<open>str.strip\<close>, \<^verbatim>\<open>str.isdigit\<close>,
  \<^verbatim>\<open>str.upper\<close> and of the regular expression class \<^verbatim>\<open>\d\<close>. Theorems that quantify over
  arbitrary tokens carry the hypothesis \<open>ascii\<close>.
\<close>

definition ascii :: "string \<Rightarrow> bool" where
  "ascii s = list_all (\<lambda>c. (of_char c :: nat) < 128) s"

definition is_space :: "char \<Rightarrow> bool" where
  "is_space c = (let n = (of_char c :: nat) in (9 \<le> n \<and> n \<le> 13) \<or> (28 \<le> n \<and> n \<le> 32))"

definition is_digit :: "char \<Rightarrow> bool" where
  "is_digit c = (let n = (of_char c :: nat) in 48 \<le> n \<and> n \<le> 57)"

definition upper_char :: "char \<Rightarrow> char" where
  "upper_char c = (let n = (of_char c :: nat) in if 97 \<le> n \<and> n \<le> 122 then char_of (n - 32) else c)"

definition upper :: "string \<Rightarrow> string" where
  "upper s = map upper_char s"

definition strip :: "string \<Rightarrow> string" where
  "strip s = rev (dropWhile is_space (rev (dropWhile is_space s)))"

text \<open>\<^verbatim>\<open>t.isdigit()\<close>: false on the empty string.\<close>

definition isdigit :: "string \<Rightarrow> bool" where
  "isdigit s = (s \<noteq> [] \<and> list_all is_digit s)"

section \<open>Errors\<close>

text \<open>
  The exceptions the engine raises, under the names of the specification's taxonomy.
  \<open>UnknownState\<close> is the \<^verbatim>\<open>ValueError\<close> of \<^verbatim>\<open>normalize_state\<close> and the HTTP 400
  of \<^verbatim>\<open>norm_state\<close>; \<open>StateRequired\<close> is the HTTP 400 \<^verbatim>\<open>state is required\<close>;
  \<open>MissingJoinColumn\<close> is the HTTP 400 of \<^verbatim>\<open>normalize_csv_key\<close>; the others are the
  \<^verbatim>\<open>RuntimeError\<close>s of the fetch layer and of the source resolver. \<open>SleepNegative\<close> is the
  \<^verbatim>\<open>ValueError\<close> of \<^verbatim>\<open>time.sleep\<close> on a negative duration, \<open>UnboundResp\<close> the
  \<^verbatim>\<open>UnboundLocalError\<close> of reading \<^verbatim>\<open>resp\<close> when the retry loop never ran,
  \<open>BadFloat\<close> the \<^verbatim>\<open>ValueError\<close> of \<^verbatim>\<open>astype(float)\<close> on a string that is no number.
\<close>

datatype response = Status nat | ConnError

datatype error =
    UnknownState string
  | StateRequired
  | MissingJoinColumn "string list"
  | NoSourceAvailable "string list"
  | OfflineCacheMiss
  | OfflineFetchDenied string
  | FetchFailed response
  | SleepNegative
  | UnboundResp
  | BadFloat string

section \<open>State identifier resolver\<close>

text \<open>
  \<^verbatim>\<open>STATE_ABBR_TO_FIPS\<close> of \<^verbatim>\<open>alice_choropleth.py\<close>, as the association list of the
  dictionary's items in insertion order (the order \<^verbatim>\<open>.items()\<close> iterates in).
\<close>

definition STATE_ABBR_TO_FIPS :: "(string \<times> string) list" where
  "STATE_ABBR_TO_FIPS =
   [(''AL'', ''01''), (''AK'', ''02''), (''AZ'', ''04''), (''AR'', ''05''), (''CA'', ''06''),
    (''CO'', ''08''), (''CT'', ''09''), (''DE'', ''10''), (''DC'', ''11''),
    (''FL'', ''12''), (''GA'', ''13''), (''HI'', ''15''), (''ID'', ''16''), (''IL'', ''17''),
    (''IN'', ''18''), (''IA'', ''19''), (''KS'', ''20''), (''KY'', ''21''),
    (''LA'', ''22''), (''ME'', ''23''), (''MD'', ''24''), (''MA'', ''25''), (''MI'', ''26''),
    (''MN'', ''27''), (''MS'', ''28''), (''MO'', ''29''), (''MT'', ''30''),
    (''NE'', ''31''), (''NV'', ''32''), (''NH'', ''33''), (''NJ'', ''34''), (''NM'', ''35''),
    (''NY'', ''36''), (''NC'', ''37''), (''ND'', ''38''), (''OH'', ''39''),
    (''OK'', ''40''), (''OR'', ''41''), (''PA'', ''42''), (''RI'', ''44''), (''SC'', ''45''),
    (''SD'', ''46''), (''TN'', ''47''), (''TX'', ''48''), (''UT'', ''49''),
    (''VT'', ''50''), (''VA'', ''51''), (''WA'', ''53''), (''WV'', ''54''), (''WI'', ''55''),
    (''WY'', ''56''),
    (''AS'', ''60''), (''GU'', ''66''), (''MP'', ''69''), (''PR'', ''72''), (''VI'', ''78''),
    (''UM'', ''74'')]"

text \<open>The copy of the table in \<^verbatim>\<open>local_api.py\<close>.\<close>

definition STATE_ABBR_TO_FIPS_api :: "(string \<times> string) list" where
  "STATE_ABBR_TO_FIPS_api =
   [(''AL'', ''01''), (''AK'', ''02''), (''AZ'', ''04''), (''AR'', ''05''), (''CA'', ''06''),
    (''CO'', ''08''), (''CT'', ''09''), (''DE'', ''10''), (''DC'', ''11''),
    (''FL'', ''12''), (''GA'', ''13''), (''HI'', ''15''), (''ID'', ''16''), (''IL'', ''17''),
    (''IN'', ''18''), (''IA'', ''19''), (''KS'', ''20''), (''KY'', ''21''),
    (''LA'', ''22''), (''ME'', ''23''), (''MD'', ''24''), (''MA'', ''25''), (''MI'', ''26''),
    (''MN'', ''27''), (''MS'', ''28''), (''MO'', ''29''), (''MT'', ''30''),
    (''NE'', ''31''), (''NV'', ''32''), (''NH'', ''33''), (''NJ'', ''34''), (''NM'', ''35''),
    (''NY'', ''36''), (''NC'', ''37''), (''ND'', ''38''), (''OH'', ''39''),
    (''OK'', ''40''), (''OR'', ''41''), (''PA'', ''42''), (''RI'', ''44''), (''SC'', ''45''),
    (''SD'', ''46''), (''TN'', ''47''), (''TX'', ''48''), (''UT'', ''49''),
    (''VT'', ''50''), (''VA'', ''51''), (''WA'', ''53''), (''WV'', ''54''), (''WI'', ''55''),
    (''WY'', ''56''), (''AS'', ''60''), (''GU'', ''66''), (''MP'', ''69''),
    (''PR'', ''72''), (''VI'', ''78''), (''UM'', ''74'')]"

text \<open>
  \<^verbatim>\<open>next((k for k, v in table.items() if v == fips), None)\<close>: the first key, in insertion
  order, whose value is \<open>fips\<close>.
\<close>

definition abbr_of_fips :: "(string \<times> string) list \<Rightarrow> string \<Rightarrow> string option" where
  "abbr_of_fips table fips = map_option fst (find (\<lambda>kv. snd kv = fips) table)"

text \<open>
  \<^verbatim>\<open>normalize_state\<close> of \<^verbatim>\<open>alice_choropleth.py\<close>. \<^verbatim>\<open>re.fullmatch(r"\d{2}", s)\<close> holds
  when \<open>s\<close> is exactly two digits. An abbreviation found by the reverse lookup is a key of
  the table, hence a non-empty string, so \<^verbatim>\<open>if not abbr\<close> is the test for \<^verbatim>\<open>None\<close>.
\<close>

definition normalize_state :: "string \<Rightarrow> error + (string \<times> string)" where
  "normalize_state state =
     (let s = strip state in
      if length s = 2 \<and> list_all is_digit s then
        (case abbr_of_fips STATE_ABBR_TO_FIPS s of
           None \<Rightarrow> Inl (UnknownState s)
         | Some abbr \<Rightarrow> Inr (abbr, s))
      else
        (let s_up = upper s in
         case map_of STATE_ABBR_TO_FIPS s_up of
           Some fips \<Rightarrow> Inr (s_up, fips)
         | None \<Rightarrow> Inl (UnknownState state)))"

text \<open>
  \<^verbatim>\<open>norm_state\<close> of \<^verbatim>\<open>local_api.py\<close>. The token is a string (the endpoint's parameter
  has type \<^verbatim>\<open>str\<close>), so \<^verbatim>\<open>token or ''\<close> is the token.
\<close>

definition REGION_TOKENS :: "string list" where
  "REGION_TOKENS = [''NORTHEAST'', ''MIDWEST'', ''SOUTH'', ''WEST'']"

definition norm_state :: "string \<Rightarrow> error + (string \<times> string)" where
  "norm_state token =
     (let t = strip token in
      if t = [] then Inl StateRequired
      else if t = ''US'' then Inr (''US'', ''US'')
      else if t \<in> set REGION_TOKENS then Inr (t, t)
      else if length t = 2 \<and> isdigit t then
        (case abbr_of_fips STATE_ABBR_TO_FIPS_api t of
           None \<Rightarrow> Inl (UnknownState t)
         | Some abbr \<Rightarrow> Inr (abbr, t))
      else
        (let t' = upper t in
         case map_of STATE_ABBR_TO_FIPS_api t' of
           Some fips \<Rightarrow> Inr (t', fips)
         | None \<Rightarrow> Inl (UnknownState token)))"

text \<open>
  The scope tokens of the serving layer, as listed by the \<^verbatim>\<open>/join\<close> endpoint:
  \<^verbatim>\<open>['US', 'NORTHEAST', 'MIDWEST', 'SOUTH', 'WEST']\<close>.
\<close>

definition SCOPE_TOKENS :: "string list" where
  "SCOPE_TOKENS = [''US'', ''NORTHEAST'', ''MIDWEST'', ''SOUTH'', ''WEST'']"

section \<open>Tables\<close>

text \<open>
  A float is a rational or one of the three special values; rounding and the sign of zero
  are not modelled. \<open>NaN\<close> is also pandas' null. A cell holds a string (object dtype) or a
  number. A data frame is the list of its named columns, in column order.
\<close>

datatype fl = Fin rat | PInf | NInf | NaN

datatype cell = Str string | Num fl

type_synonym frame = "(string \<times> cell list) list"

definition columns :: "frame \<Rightarrow> string list" where
  "columns df = map fst df"

text \<open>\<^verbatim>\<open>df[c]\<close>, applied only to a column that is present.\<close>

definition col :: "frame \<Rightarrow> string \<Rightarrow> cell list" where
  "col df c = (case map_of df c of Some v \<Rightarrow> v | None \<Rightarrow> [])"

text \<open>\<^verbatim>\<open>df[c] = v\<close>: replaces the column in place, or appends it as the last column.\<close>

definition set_col :: "frame \<Rightarrow> string \<Rightarrow> cell list \<Rightarrow> frame" where
  "set_col df c v = AList.update c v df"

section \<open>Key normalizer\<close>

text \<open>
  \<^verbatim>\<open>s.str.extract(r'(\d+)')[0]\<close> on one value: the first maximal run of digits of the
  string, null when the string has no digit.
\<close>

definition extract_digits :: "string \<Rightarrow> string option" where
  "extract_digits s =
     (let r = takeWhile is_digit (dropWhile (\<lambda>c. \<not> is_digit c) s)
      in if r = [] then None else Some r)"

text \<open>
  \<^verbatim>\<open>.str.zfill(w)\<close> on one value: zeros on the left up to width \<open>w\<close>, after a leading
  sign if there is one; nothing is removed from a string that is already that long.
\<close>

definition zfill :: "nat \<Rightarrow> string \<Rightarrow> string" where
  "zfill w s =
     (case s of
        [] \<Rightarrow> replicate w (CHR ''0'')
      | c # rest \<Rightarrow>
          if c = CHR ''+'' \<or> c = CHR ''-'' then c # replicate (w - length s) (CHR ''0'') @ rest
          else replicate (w - length s) (CHR ''0'') @ s)"

text \<open>The widths of the \<^verbatim>\<open>if level == ...\<close> chain of \<^verbatim>\<open>normalize_csv_key\<close>.\<close>

definition key_width :: "string \<Rightarrow> nat option" where
  "key_width level =
     (if level = ''state'' then Some 2
      else if level = ''county'' then Some 5
      else if level = ''place'' then Some 7
      else if level = ''subcounty'' then Some 10
      else if level = ''tract'' then Some 11
      else if level = ''bg'' then Some 12
      else if level = ''zcta'' then Some 5
      else None)"

text \<open>
  One entry of the \<^verbatim>\<open>_J\<close> column: \<^verbatim>\<open>extract\<close>, then \<^verbatim>\<open>zfill\<close> on the non-null
  values, then \<^verbatim>\<open>fillna('')\<close>; the string itself at any other level.
\<close>

definition normalize_value :: "string \<Rightarrow> string \<Rightarrow> string" where
  "normalize_value level s =
     (case key_width level of
        None \<Rightarrow> s
      | Some w \<Rightarrow>
          (case map_option (zfill w) (extract_digits s) of
             None \<Rightarrow> []
           | Some j \<Rightarrow> j))"

definition default_candidates :: "string \<Rightarrow> string list" where
  "default_candidates level =
     (if level = ''state'' then
        [''STATEFP'', ''statefp'', ''STATE'', ''state'', ''STUSPS'', ''stusps'', ''GEOID'', ''FIPS'']
      else if level = ''county'' then [''GEOID'', ''FIPS'', ''FIPS5'', ''COUNTYFP'', ''CountyFIPS'']
      else if level = ''place'' then [''GEOID'', ''PlaceGEOID'']
      else if level = ''subcounty'' then [''GEOID'']
      else if level = ''tract'' then [''GEOID'']
      else if level = ''bg'' then [''GEOID'']
      else if level = ''zcta'' then [''ZIP'', ''Zip'', ''zip'', ''ZCTA'', ''ZCTA5'', ''GEOID'']
      else [''GEOID''])"

text \<open>
  \<^verbatim>\<open>normalize_csv_key\<close> of \<^verbatim>\<open>local_api.py\<close>. The string form of a cell,
  \<^verbatim>\<open>astype(str)\<close>, is the parameter \<open>astype_str\<close>. An empty \<open>provided\<close> is falsy.
\<close>

definition candidate_columns :: "string \<Rightarrow> string option \<Rightarrow> string list" where
  "candidate_columns level provided =
     (case provided of
        None \<Rightarrow> default_candidates level
      | Some p \<Rightarrow> if p = [] then default_candidates level else [p])"

definition normalize_csv_key ::
  "(cell \<Rightarrow> string) \<Rightarrow> string \<Rightarrow> frame \<Rightarrow> string option \<Rightarrow> error + (frame \<times> string)" where
  "normalize_csv_key astype_str level df provided =
     (let candidates = candidate_columns level provided
      in case find (\<lambda>c. c \<in> set (columns df)) candidates of
           None \<Rightarrow> Inl (MissingJoinColumn candidates)
         | Some key \<Rightarrow>
             (let s = map astype_str (col df key)
              in Inr (set_col df ''_J'' (map (\<lambda>v. Str (normalize_value level v)) s), ''_J'')))"

text \<open>
  The key widths as the specification lists them: state 2, county 5, place 7,
  county-subdivision 10, tract 11, block-group 12, zcta 5, under the level names of the
  serving layer.
\<close>

definition spec_key_widths :: "(string \<times> nat) list" where
  "spec_key_widths =
     [(''state'', 2), (''county'', 5), (''place'', 7), (''subcounty'', 10),
      (''tract'', 11), (''bg'', 12), (''zcta'', 5)]"

text \<open>
  The CSV key of \<^verbatim>\<open>prepare_zcta\<close> in \<^verbatim>\<open>alice_choropleth.py\<close>: the same \<^verbatim>\<open>extract\<close>
  and \<^verbatim>\<open>zfill(5)\<close>, without \<^verbatim>\<open>fillna\<close>, so a value with no digit stays null.
\<close>

definition zcta_csv_key :: "string \<Rightarrow> string option" where
  "zcta_csv_key s = map_option (zfill 5) (extract_digits s)"

text \<open>A key that may be null, as a cell.\<close>

definition key_cell :: "string option \<Rightarrow> cell" where
  "key_cell k = (case k of None \<Rightarrow> Num NaN | Some j \<Rightarrow> Str j)"

text \<open>
  The CSV side of \<^verbatim>\<open>prepare_zcta\<close>: the first of the five column names that is present,
  a \<^verbatim>\<open>ValueError\<close> when none is, and the column \<^verbatim>\<open>_ZCTA5\<close> of the keys.
\<close>

definition ZIP_COLUMNS :: "string list" where
  "ZIP_COLUMNS = [''ZIP'', ''Zip'', ''zip'', ''ZCTA'', ''ZCTA5'']"

definition prepare_zcta_csv :: "(cell \<Rightarrow> string) \<Rightarrow> frame \<Rightarrow> error + frame" where
  "prepare_zcta_csv astype_str df =
     (case find (\<lambda>cand. cand \<in> set (columns df)) ZIP_COLUMNS of
        None \<Rightarrow> Inl (MissingJoinColumn ZIP_COLUMNS)
      | Some zip_col \<Rightarrow>
          Inr (set_col df ''_ZCTA5''
                 (map (\<lambda>v. key_cell (zcta_csv_key (astype_str v))) (col df zip_col))))"

text \<open>
  The CSV side of \<^verbatim>\<open>prepare_place\<close> and \<^verbatim>\<open>prepare_cousub\<close>, which expect a column
  \<^verbatim>\<open>GEOID\<close> of digits ("Expect a 7-digit GEOID for place"): the string form is
  zero-filled to 7, respectively 10, and nothing is extracted from it.
\<close>

definition place_csv_key :: "string \<Rightarrow> string" where
  "place_csv_key s = zfill 7 s"

definition cousub_csv_key :: "string \<Rightarrow> string" where
  "cousub_csv_key s = zfill 10 s"

definition prepare_place_csv :: "(cell \<Rightarrow> string) \<Rightarrow> frame \<Rightarrow> error + frame" where
  "prepare_place_csv astype_str df =
     (if ''GEOID'' \<notin> set (columns df) then Inl (MissingJoinColumn [''GEOID''])
      else Inr (set_col df ''GEOID''
                  (map (\<lambda>v. Str (place_csv_key (astype_str v))) (col df ''GEOID''))))"

definition prepare_cousub_csv :: "(cell \<Rightarrow> string) \<Rightarrow> frame \<Rightarrow> error + frame" where
  "prepare_cousub_csv astype_str df =
     (if ''GEOID'' \<notin> set (columns df) then Inl (MissingJoinColumn [''GEOID''])
      else Inr (set_col df ''GEOID''
                  (map (\<lambda>v. Str (cousub_csv_key (astype_str v))) (col df ''GEOID''))))"


section \<open>Join engine\<close>

text \<open>
  \<^verbatim>\<open>gdf.merge(df, how='left', left_on=..., right_on=...)\<close>. The geometry rows are the
  spine, in their order; each is paired with every CSV row of the same key, in the CSV's
  order, or kept once with no CSV row. A merged row is the pair of its geometry row and
  its CSV row; \<open>None\<close> stands for null in every column that comes from the CSV.
\<close>

fun merge_left :: "('g \<Rightarrow> 'k) \<Rightarrow> ('r \<Rightarrow> 'k) \<Rightarrow> 'g list \<Rightarrow> 'r list \<Rightarrow> ('g \<times> 'r option) list" where
  "merge_left lkey rkey [] df = []"
| "merge_left lkey rkey (g # gdf) df =
     (case filter (\<lambda>r. rkey r = lkey g) df of
        [] \<Rightarrow> [(g, None)]
      | ms \<Rightarrow> map (\<lambda>r. (g, Some r)) ms) @ merge_left lkey rkey gdf df"

text \<open>The value of a CSV attribute in a merged row, given how a CSV row is read.\<close>

fun csv_attribute :: "('r \<Rightarrow> string \<Rightarrow> cell) \<Rightarrow> ('g \<times> 'r option) \<Rightarrow> string \<Rightarrow> cell" where
  "csv_attribute get (g, Some r) c = get r c"
| "csv_attribute get (g, None) c = Num NaN"

text \<open>
  The geometry key of the \<^verbatim>\<open>/join\<close> endpoint: the string form of the native identifier,
  zero-filled to 5 at level \<^verbatim>\<open>zcta\<close>.
\<close>

definition geometry_key :: "string \<Rightarrow> string \<Rightarrow> string" where
  "geometry_key level s = (if level = ''zcta'' then zfill 5 s else s)"

subsection \<open>Derived rates\<close>

fun fadd :: "fl \<Rightarrow> fl \<Rightarrow> fl" where
  "fadd (Fin a) (Fin b) = Fin (a + b)"
| "fadd NaN y = NaN"
| "fadd x NaN = NaN"
| "fadd PInf NInf = NaN"
| "fadd NInf PInf = NaN"
| "fadd PInf y = PInf"
| "fadd x PInf = PInf"
| "fadd NInf y = NInf"
| "fadd x NInf = NInf"

text \<open>
  Float division as numpy performs it on a column: a zero divisor gives an infinity or
  \<open>NaN\<close>, never an exception.
\<close>

fun fdiv :: "fl \<Rightarrow> fl \<Rightarrow> fl" where
  "fdiv (Fin a) (Fin b) =
     (if b = 0 then (if a = 0 then NaN else if 0 < a then PInf else NInf) else Fin (a / b))"
| "fdiv NaN y = NaN"
| "fdiv x NaN = NaN"
| "fdiv (Fin a) PInf = Fin 0"
| "fdiv (Fin a) NInf = Fin 0"
| "fdiv PInf (Fin b) = (if 0 \<le> b then PInf else NInf)"
| "fdiv NInf (Fin b) = (if 0 \<le> b then NInf else PInf)"
| "fdiv PInf y = NaN"
| "fdiv NInf y = NaN"

text \<open>\<^verbatim>\<open>hh > 0\<close> on one value.\<close>

fun fgt0 :: "fl \<Rightarrow> bool" where
  "fgt0 (Fin a) = (0 < a)"
| "fgt0 PInf = True"
| "fgt0 NInf = False"
| "fgt0 NaN = False"

text \<open>\<^verbatim>\<open>series.where(cond)\<close>: the value where the condition holds, null elsewhere.\<close>

definition where_series :: "fl list \<Rightarrow> bool list \<Rightarrow> fl list" where
  "where_series v cond = map2 (\<lambda>x b. if b then x else NaN) v cond"

text \<open>
  \<^verbatim>\<open>series.astype(float)\<close>. Parsing a string is the parameter \<open>float_of\<close>; a string
  that is not a number raises.
\<close>

fun astype_float :: "(string \<Rightarrow> fl option) \<Rightarrow> cell list \<Rightarrow> error + fl list" where
  "astype_float float_of [] = Inr []"
| "astype_float float_of (c # cs) =
     (case (case c of Num x \<Rightarrow> Some x | Str s \<Rightarrow> float_of s) of
        None \<Rightarrow> Inl (BadFloat (case c of Str s \<Rightarrow> s | Num x \<Rightarrow> []))
      | Some x \<Rightarrow>
          (case astype_float float_of cs of
             Inl e \<Rightarrow> Inl e
           | Inr xs \<Rightarrow> Inr (x # xs)))"

definition needed :: "string list" where
  "needed = [''Households'', ''Poverty Households'', ''ALICE Households'']"

text \<open>
  \<^verbatim>\<open>compute_rates\<close> of \<^verbatim>\<open>local_api.py\<close>, statement by statement; the frame is
  returned instead of mutated.
\<close>

definition compute_rates :: "(string \<Rightarrow> fl option) \<Rightarrow> frame \<Rightarrow> error + frame" where
  "compute_rates float_of df =
     (if list_all (\<lambda>c. c \<in> set (columns df)) needed then
        (case astype_float float_of (col df ''Households'') of Inl e \<Rightarrow> Inl e | Inr hh \<Rightarrow>
         case astype_float float_of (col df ''Poverty Households'') of Inl e \<Rightarrow> Inl e | Inr pov \<Rightarrow>
         case astype_float float_of (col df ''ALICE Households'') of Inl e \<Rightarrow> Inl e | Inr alice \<Rightarrow>
           let below = map2 fadd pov alice;
               df1 = set_col df ''Below_ALICE_Rate''
                       (map Num (where_series (map2 fdiv below hh) (map fgt0 hh)))
           in
          (case astype_float float_of (col df1 ''Poverty Households'') of Inl e \<Rightarrow> Inl e | Inr pov1 \<Rightarrow>
             let df2 = set_col df1 ''Poverty_Rate''
                         (map Num (where_series (map2 fdiv pov1 hh) (map fgt0 hh)))
             in
            (case astype_float float_of (col df2 ''ALICE Households'') of Inl e \<Rightarrow> Inl e | Inr alice2 \<Rightarrow>
               Inr (set_col df2 ''ALICE_Rate''
                      (map Num (where_series (map2 fdiv alice2 hh) (map fgt0 hh)))))))
      else Inr df)"

text \<open>\<^verbatim>\<open>compute_metrics\<close> of \<^verbatim>\<open>alice_choropleth.py\<close> has the same statements.\<close>

definition compute_metrics :: "(string \<Rightarrow> fl option) \<Rightarrow> frame \<Rightarrow> error + frame" where
  "compute_metrics float_of df = compute_rates float_of df"

subsection \<open>Best-effort steps\<close>

text \<open>
  What a library step raises: an instance of \<^verbatim>\<open>Exception\<close>, which \<^verbatim>\<open>except Exception\<close>
  catches, or of \<^verbatim>\<open>BaseException\<close> only (\<^verbatim>\<open>SystemExit\<close>, \<^verbatim>\<open>KeyboardInterrupt\<close>),
  which it lets through.
\<close>

datatype exn = Exception string | BaseException string

text \<open>
  The \<^verbatim>\<open>try\<close> block that ends \<^verbatim>\<open>prepare_zcta\<close>. Its three fallible steps are
  parameters: loading the state polygon, \<^verbatim>\<open>set_geometry\<close>, and the centroid filter.
  \<^verbatim>\<open>merged\<close> is reassigned by \<^verbatim>\<open>set_geometry\<close> before the filter runs, so a failure of
  the filter leaves the table \<^verbatim>\<open>set_geometry\<close> returned.
\<close>

definition zcta_state_filter ::
  "(exn + 'p) \<Rightarrow> ('t \<Rightarrow> exn + 't) \<Rightarrow> ('p \<Rightarrow> 't \<Rightarrow> exn + 't) \<Rightarrow> 't \<Rightarrow> exn + 't" where
  "zcta_state_filter state_poly set_geometry centroid_within merged =
     (case state_poly of
        Inl (Exception m) \<Rightarrow> Inr merged
      | Inl (BaseException m) \<Rightarrow> Inl (BaseException m)
      | Inr poly \<Rightarrow>
          (case set_geometry merged of
             Inl (Exception m) \<Rightarrow> Inr merged
           | Inl (BaseException m) \<Rightarrow> Inl (BaseException m)
           | Inr merged1 \<Rightarrow>
               (case centroid_within poly merged1 of
                  Inl (Exception m) \<Rightarrow> Inr merged1
                | Inl (BaseException m) \<Rightarrow> Inl (BaseException m)
                | Inr merged2 \<Rightarrow> Inr merged2)))"

text \<open>
  The branch \<^verbatim>\<open>level == 'zcta'\<close> of \<^verbatim>\<open>load_boundary\<close> in \<^verbatim>\<open>local_api.py\<close>, which
  \<^verbatim>\<open>/boundaries\<close> and \<^verbatim>\<open>/join\<close> call. It applies the same centroid filter, to the
  polygon of the state or to the union of the polygons of a region, outside any
  \<^verbatim>\<open>try\<close>: what a step raises reaches the caller. The loaded ZCTA table, the two ways
  of getting the polygon and the centroid test are parameters.
\<close>

definition load_boundary_zcta ::
  "string \<Rightarrow> (exn + 'p) \<Rightarrow> (exn + 'p) \<Rightarrow> ('p \<Rightarrow> 't \<Rightarrow> exn + 't) \<Rightarrow> 't \<Rightarrow> exn + 't" where
  "load_boundary_zcta state_abbr region_geom geom centroid_within gdf =
     (if state_abbr = ''US'' then Inr gdf
      else if state_abbr \<in> set REGION_TOKENS then
        (case region_geom of Inl e \<Rightarrow> Inl e | Inr g \<Rightarrow> centroid_within g gdf)
      else
        (case geom of Inl e \<Rightarrow> Inl e | Inr g \<Rightarrow> centroid_within g gdf))"

text \<open>
  The optional simplification of \<^verbatim>\<open>main\<close> (\<^verbatim>\<open>if simp and hasattr(gdf, 'geometry')\<close>) and
  of \<^verbatim>\<open>/join\<close> (\<^verbatim>\<open>if simplify and 'geometry' in mg\<close>): a tolerance that is absent or zero
  is falsy.
\<close>

definition simplify_step ::
  "(rat \<Rightarrow> 't \<Rightarrow> exn + 't) \<Rightarrow> rat option \<Rightarrow> bool \<Rightarrow> 't \<Rightarrow> exn + 't" where
  "simplify_step simplify tol has_geometry gdf =
     (case tol of
        None \<Rightarrow> Inr gdf
      | Some s \<Rightarrow>
          if s \<noteq> 0 \<and> has_geometry then
            (case simplify s gdf of
               Inl (Exception m) \<Rightarrow> Inr gdf
             | Inl (BaseException m) \<Rightarrow> Inl (BaseException m)
             | Inr g \<Rightarrow> Inr g)
          else Inr gdf)"

section \<open>Source resolver and fetch layer\<close>

text \<open>
  The network is a function giving the reply to the \<open>n\<close>-th request of the run, sent to a
  URL: a final HTTP status, or a connection error (an exception of the HTTP library).
  Every function returns, with its result, the trace of the requests it sent, each with
  the reply it got, and of the sleeps it took. The process-wide settings of
  \<^verbatim>\<open>alice_choropleth.py\<close> are a record; the file system is the predicate \<open>exists\<close>.
\<close>

type_synonym network = "nat \<Rightarrow> string \<Rightarrow> response"

datatype event = Head string response | Get string response | Sleep rat

record config =
  INSECURE :: bool
  CACHE_DIR :: "string option"
  OFFLINE :: bool
  MAX_RETRIES :: int
  RETRY_WAIT :: rat

fun is_request :: "event \<Rightarrow> bool" where
  "is_request (Sleep d) = False"
| "is_request e = True"

definition requests :: "event list \<Rightarrow> event list" where
  "requests ev = filter is_request ev"

text \<open>\<^verbatim>\<open>r.ok\<close>: the status is not a client or server error.\<close>

fun head_ok :: "response \<Rightarrow> bool" where
  "head_ok (Status c) = (\<not> (400 \<le> c \<and> c < 600))"
| "head_ok ConnError = False"

definition TRANSIENT :: "nat list" where
  "TRANSIENT = [429, 500, 502, 503, 504]"

text \<open>
  The body of the \<^verbatim>\<open>try\<close> in \<^verbatim>\<open>download_to_temp\<close> reaches \<^verbatim>\<open>break\<close>: the request did
  not raise, the status is not in the transient list, and \<^verbatim>\<open>raise_for_status\<close> passes.
\<close>

fun get_ok :: "response \<Rightarrow> bool" where
  "get_ok (Status c) = (c \<notin> set TRANSIENT \<and> \<not> (400 \<le> c \<and> c < 600))"
| "get_ok ConnError = False"

text \<open>The same for \<^verbatim>\<open>download\<close> of \<^verbatim>\<open>prefetch_tiger.py\<close>: the status must be 200.\<close>

fun get_ok_prefetch :: "response \<Rightarrow> bool" where
  "get_ok_prefetch (Status c) = (c \<notin> set TRANSIENT \<and> c = 200)"
| "get_ok_prefetch ConnError = False"

definition basename :: "string \<Rightarrow> string" where
  "basename url = rev (takeWhile (\<lambda>c. c \<noteq> CHR ''/'') (rev url))"

text \<open>\<^verbatim>\<open>os.path.join(d, f)\<close> for a file name \<open>f\<close> that has no slash.\<close>

definition path_join :: "string \<Rightarrow> string \<Rightarrow> string" where
  "path_join d f = (if d = [] \<or> last d = CHR ''/'' then d @ f else d @ ''/'' @ f)"

definition cache_path_for :: "config \<Rightarrow> string \<Rightarrow> string option" where
  "cache_path_for cfg url =
     (case CACHE_DIR cfg of
        None \<Rightarrow> None
      | Some d \<Rightarrow> if d = [] then None else Some (path_join d (basename url)))"

text \<open>
  The inner loop of \<^verbatim>\<open>resolve_first_available\<close>, \<^verbatim>\<open>for attempt in range(1, N + 1)\<close>,
  with \<open>k\<close> iterations left and \<open>t\<close> requests sent so far; the two copies of the function
  differ only in where \<open>N\<close> and the base wait come from. The result is whether a probe
  succeeded. \<^verbatim>\<open>time.sleep\<close> raises on a negative duration.
\<close>

fun probe :: "int \<Rightarrow> rat \<Rightarrow> network \<Rightarrow> string \<Rightarrow> nat \<Rightarrow> nat \<Rightarrow> (error + bool) \<times> event list" where
  "probe maxr wait net u t 0 = (Inr False, [])"
| "probe maxr wait net u t (Suc k) =
     (let attempt = nat maxr - k; r = net t u in
      if head_ok r then (Inr True, [Head u r])
      else if int attempt < maxr then
        (let d = wait * 2 ^ (attempt - 1) in
         if d < 0 then (Inl SleepNegative, [Head u r])
         else (case probe maxr wait net u (Suc t) k of
                 (res, ev) \<Rightarrow> (res, Head u r # Sleep d # ev)))
      else (case probe maxr wait net u (Suc t) k of
              (res, ev) \<Rightarrow> (res, Head u r # ev)))"

text \<open>The outer loop, \<^verbatim>\<open>for u in urls\<close>, and the \<^verbatim>\<open>raise\<close> after it.\<close>

fun probe_all ::
  "int \<Rightarrow> rat \<Rightarrow> network \<Rightarrow> string list \<Rightarrow> string list \<Rightarrow> nat \<Rightarrow> (error + string) \<times> event list" where
  "probe_all maxr wait net urls [] t = (Inl (NoSourceAvailable urls), [])"
| "probe_all maxr wait net urls (u # us) t =
     (case probe maxr wait net u t (nat maxr) of
        (Inl e, ev) \<Rightarrow> (Inl e, ev)
      | (Inr True, ev) \<Rightarrow> (Inr u, ev)
      | (Inr False, ev) \<Rightarrow>
          (case probe_all maxr wait net urls us (t + length (requests ev)) of
             (res, ev') \<Rightarrow> (res, ev @ ev')))"

text \<open>\<^verbatim>\<open>resolve_first_available\<close> of \<^verbatim>\<open>alice_choropleth.py\<close>.\<close>

definition resolve_first_available ::
  "config \<Rightarrow> (string \<Rightarrow> bool) \<Rightarrow> network \<Rightarrow> nat \<Rightarrow> string list \<Rightarrow> (error + string) \<times> event list" where
  "resolve_first_available cfg exists net t urls =
     (if OFFLINE cfg \<and> (case CACHE_DIR cfg of None \<Rightarrow> False | Some d \<Rightarrow> d \<noteq> []) then
        (case find (\<lambda>u. case cache_path_for cfg u of None \<Rightarrow> False | Some cpath \<Rightarrow> exists cpath) urls of
           Some u \<Rightarrow> (Inr u, [])
         | None \<Rightarrow> (Inl OfflineCacheMiss, []))
      else probe_all (MAX_RETRIES cfg) (RETRY_WAIT cfg) net urls urls t)"


text \<open>
  The retry loop of \<^verbatim>\<open>download_to_temp\<close>. Every failure of the \<^verbatim>\<open>try\<close> body, whatever
  the status, lands in the one \<^verbatim>\<open>except Exception\<close>: re-raised at the last attempt,
  followed by a sleep and the next attempt otherwise. The result is the response bound
  to \<^verbatim>\<open>resp\<close>, if any.
\<close>

fun fetch_loop ::
  "config \<Rightarrow> network \<Rightarrow> string \<Rightarrow> nat \<Rightarrow> nat \<Rightarrow> (error + response option) \<times> event list" where
  "fetch_loop cfg net url t 0 = (Inr None, [])"
| "fetch_loop cfg net url t (Suc k) =
     (let attempt = nat (MAX_RETRIES cfg) - k; resp = net t url in
      if get_ok resp then (Inr (Some resp), [Get url resp])
      else if int attempt = MAX_RETRIES cfg then (Inl (FetchFailed resp), [Get url resp])
      else
        (let d = RETRY_WAIT cfg * 2 ^ (attempt - 1) in
         if d < 0 then (Inl SleepNegative, [Get url resp])
         else (case fetch_loop cfg net url (Suc t) k of
                 (res, ev) \<Rightarrow> (res, Get url resp # Sleep d # ev))))"

text \<open>
  Where the archive ends up: in the cache, or in a temporary file when there is no cache
  directory or the move into it failed (\<open>replace_ok\<close> says whether \<^verbatim>\<open>os.replace\<close>
  succeeds). Failures of the other file-system calls are not modelled.
\<close>

datatype location = CachePath string | TempPath

definition download_to_temp ::
  "config \<Rightarrow> (string \<Rightarrow> bool) \<Rightarrow> bool \<Rightarrow> network \<Rightarrow> nat \<Rightarrow> string \<Rightarrow> (error + location) \<times> event list" where
  "download_to_temp cfg exists replace_ok net t url =
     (let cpath = cache_path_for cfg url in
      if (case cpath of None \<Rightarrow> False | Some c \<Rightarrow> exists c) then
        (case cpath of Some c \<Rightarrow> (Inr (CachePath c), []) | None \<Rightarrow> (Inr TempPath, []))
      else if OFFLINE cfg then (Inl (OfflineFetchDenied url), [])
      else
        (case fetch_loop cfg net url t (nat (MAX_RETRIES cfg)) of
           (Inl e, ev) \<Rightarrow> (Inl e, ev)
         | (Inr None, ev) \<Rightarrow> (Inl UnboundResp, ev)
         | (Inr (Some resp), ev) \<Rightarrow>
             (case cpath of
                None \<Rightarrow> (Inr TempPath, ev)
              | Some c \<Rightarrow> if replace_ok then (Inr (CachePath c), ev) else (Inr TempPath, ev))))"

text \<open>The retry loop of \<^verbatim>\<open>download\<close> in \<^verbatim>\<open>prefetch_tiger.py\<close>, and the function.\<close>

fun download_loop ::
  "int \<Rightarrow> rat \<Rightarrow> network \<Rightarrow> string \<Rightarrow> nat \<Rightarrow> nat \<Rightarrow> (error + unit) \<times> event list" where
  "download_loop max_retries retry_wait net url t 0 = (Inr (), [])"
| "download_loop max_retries retry_wait net url t (Suc k) =
     (let attempt = nat max_retries - k; r = net t url in
      if get_ok_prefetch r then (Inr (), [Get url r])
      else if int attempt = max_retries then (Inl (FetchFailed r), [Get url r])
      else
        (let d = retry_wait * 2 ^ (attempt - 1) in
         if d < 0 then (Inl SleepNegative, [Get url r])
         else (case download_loop max_retries retry_wait net url (Suc t) k of
                 (res, ev) \<Rightarrow> (res, Get url r # Sleep d # ev))))"

definition download ::
  "int \<Rightarrow> rat \<Rightarrow> (string \<Rightarrow> bool) \<Rightarrow> network \<Rightarrow> nat \<Rightarrow> string \<Rightarrow> string \<Rightarrow> (error + string) \<times> event list" where
  "download max_retries retry_wait exists net t url dest_dir =
     (let out = path_join dest_dir (basename url) in
      if exists out then (Inr out, [])
      else
        (case download_loop max_retries retry_wait net url t (nat max_retries) of
           (Inl e, ev) \<Rightarrow> (Inl e, ev)
         | (Inr u, ev) \<Rightarrow> (Inr out, ev)))"

text \<open>
  The settings the module starts with (\<^verbatim>\<open>INSECURE = False\<close>, \<^verbatim>\<open>CACHE_DIR = None\<close>,
  \<^verbatim>\<open>OFFLINE = False\<close>, \<^verbatim>\<open>MAX_RETRIES = 6\<close>, \<^verbatim>\<open>RETRY_WAIT = 2.0\<close>), which are also
  the defaults of the command-line options, and the URLs of \<^verbatim>\<open>place_url()\<close> and
  \<^verbatim>\<open>zcta_urls()\<close>.
\<close>

definition default_config :: config where
  "default_config =
     \<lparr>INSECURE = False, CACHE_DIR = None, OFFLINE = False, MAX_RETRIES = 6, RETRY_WAIT = 2\<rparr>"

definition place_url :: string where
  "place_url = ''https://www2.census.gov/geo/tiger/GENZ2023/shp/cb_2023_us_place_500k.zip''"

definition zcta_urls :: "string list" where
  "zcta_urls =
     [''https://www2.census.gov/geo/tiger/GENZ2023/shp/cb_2023_us_zcta520_500k.zip'',
      ''https://www2.census.gov/geo/tiger/GENZ2022/shp/cb_2022_us_zcta520_500k.zip'',
      ''https://www2.census.gov/geo/tiger/GENZ2021/shp/cb_2021_us_zcta520_500k.zip'',
      ''https://www2.census.gov/geo/tiger/GENZ2020/shp/cb_2020_us_zcta520_500k.zip'']"

text \<open>Reading a trace: the URL a request went to, and whether a probe's reply was a success.\<close>

fun event_url :: "event \<Rightarrow> string" where
  "event_url (Head u r) = u"
| "event_url (Get u r) = u"
| "event_url (Sleep d) = []"




text \<open>
  A table of two places, the second with no household, on which the rates are evaluated
  below.
\<close>

definition example_frame :: frame where
  "example_frame =
     [(''GEOID'', [Str ''12001'', Str ''12003'']),
      (''Households'', [Num (Fin 100), Num (Fin 0)]),
      (''Poverty Households'', [Num (Fin 10), Num (Fin 0)]),
      (''ALICE Households'', [Num (Fin 20), Num (Fin 0)])]"

section \<open>Properties of the state identifier resolver\<close>

lemma tables_eq: "STATE_ABBR_TO_FIPS_api = STATE_ABBR_TO_FIPS"
  by (simp add: STATE_ABBR_TO_FIPS_api_def STATE_ABBR_TO_FIPS_def)

lemma distinct_abbrs: "distinct (map fst STATE_ABBR_TO_FIPS)"
  by (simp add: STATE_ABBR_TO_FIPS_def)

lemma distinct_fips: "distinct (map snd STATE_ABBR_TO_FIPS)"
  by (simp add: STATE_ABBR_TO_FIPS_def)

lemma find_snd_unique:
  "distinct (map snd T) \<Longrightarrow> (a, f) \<in> set T \<Longrightarrow> find (\<lambda>kv. snd kv = f) T = Some (a, f)"
  by (induction T) (auto simp: rev_image_eqI)

lemma abbr_of_fips_entry:
  "distinct (map snd T) \<Longrightarrow> (a, f) \<in> set T \<Longrightarrow> abbr_of_fips T f = Some a"
  by (simp add: abbr_of_fips_def find_snd_unique)

lemma find_SomeD: "find P T = Some x \<Longrightarrow> x \<in> set T \<and> P x"
  by (induction T) (auto split: if_splits)

lemma abbr_of_fips_SomeD:
  "abbr_of_fips T f = Some a \<Longrightarrow> (a, f) \<in> set T"
  by (auto simp: abbr_of_fips_def dest: find_SomeD)

lemma keys_shape:
  "list_all (\<lambda>(a, f). a \<noteq> [] \<and> list_all (\<lambda>c. \<not> is_space c \<and> \<not> is_digit c) a \<and> a \<notin> set SCOPE_TOKENS)
     STATE_ABBR_TO_FIPS"
  by code_simp

lemma keys_shapeD:
  assumes "(a, f) \<in> set STATE_ABBR_TO_FIPS"
  shows "a \<noteq> []" "list_all (\<lambda>c. \<not> is_space c \<and> \<not> is_digit c) a" "a \<notin> set SCOPE_TOKENS"
  using keys_shape assms by (auto simp: list_all_iff)

lemma upper_char_space: "is_space c \<Longrightarrow> upper_char c = c"
  by (auto simp: is_space_def upper_char_def Let_def)

lemma upper_char_digit: "is_digit c \<Longrightarrow> upper_char c = c"
  by (auto simp: is_digit_def upper_char_def Let_def)

lemma upper_plain:
  "list_all (\<lambda>c. \<not> is_space c \<and> \<not> is_digit c) (upper t) \<Longrightarrow> list_all (\<lambda>c. \<not> is_space c \<and> \<not> is_digit c) t"
  by (induction t) (auto simp: upper_def upper_char_space upper_char_digit)

lemma strip_no_space: "list_all (\<lambda>c. \<not> is_space c) t \<Longrightarrow> strip t = t"
proof (cases t rule: rev_cases)
  case Nil then show ?thesis by (simp add: strip_def)
next
  case (snoc ys y)
  assume a: "list_all (\<lambda>c. \<not> is_space c) t"
  have "dropWhile is_space t = t" using a by (cases t) auto
  moreover have "dropWhile is_space (rev t) = rev t" using a snoc by auto
  ultimately show ?thesis by (simp add: strip_def)
qed

lemma upper_scope: "s \<in> set SCOPE_TOKENS \<Longrightarrow> upper s = s"
  by (auto simp: SCOPE_TOKENS_def REGION_TOKENS_def upper_def upper_char_def)

lemma norm_state_abbr:
  assumes e: "(a, f) \<in> set STATE_ABBR_TO_FIPS_api" and u: "upper t = a"
  shows "norm_state t = Inr (a, f)"
proof -
  have e': "(a, f) \<in> set STATE_ABBR_TO_FIPS" using e by (simp add: tables_eq)
  have pl: "list_all (\<lambda>c. \<not> is_space c \<and> \<not> is_digit c) t"
    using keys_shapeD(2)[OF e'] u upper_plain by blast
  then have st: "strip t = t" by (intro strip_no_space) (auto simp: list_all_iff)
  have ne: "t \<noteq> []" using keys_shapeD(1)[OF e'] u by (auto simp: upper_def)
  have ns: "t \<notin> set SCOPE_TOKENS" using keys_shapeD(3)[OF e'] u upper_scope by force
  have nd: "\<not> isdigit t" using pl ne by (cases t) (auto simp: isdigit_def)
  have m: "map_of STATE_ABBR_TO_FIPS_api (upper t) = Some f"
    using e' u distinct_abbrs by (simp add: tables_eq)
  show ?thesis using st ne ns nd m u
    by (simp add: norm_state_def Let_def SCOPE_TOKENS_def REGION_TOKENS_def)
qed

lemma norm_state_scope:
  assumes s: "s \<in> set SCOPE_TOKENS"
  shows "(\<exists>y. norm_state t = Inr (s, y)) = (strip t = s)"
proof
  assume "strip t = s"
  then have "norm_state t = Inr (s, s)" using s
    by (auto simp: norm_state_def Let_def SCOPE_TOKENS_def REGION_TOKENS_def)
  then show "\<exists>y. norm_state t = Inr (s, y)" by blast
next
  assume "\<exists>y. norm_state t = Inr (s, y)"
  then obtain y where y: "norm_state t = Inr (s, y)" by blast
  show "strip t = s"
  proof (rule ccontr)
    assume n: "strip t \<noteq> s"
    from y n have "\<exists>f. (s, f) \<in> set STATE_ABBR_TO_FIPS"
      by (auto simp: norm_state_def Let_def tables_eq split: if_splits option.splits
               dest: abbr_of_fips_SomeD map_of_SomeD)
    then show False using keys_shapeD(3) s by blast
  qed
qed

lemma normalize_state_entry:
  assumes "normalize_state t = Inr (a, f)"
  shows "(a, f) \<in> set STATE_ABBR_TO_FIPS"
  using assms
  by (auto simp: normalize_state_def Let_def split: if_splits option.splits
           dest: abbr_of_fips_SomeD map_of_SomeD)

lemma norm_state_entry:
  assumes "norm_state t = Inr (a, f)" "strip t \<notin> set SCOPE_TOKENS"
  shows "(a, f) \<in> set STATE_ABBR_TO_FIPS"
  using assms
  by (auto simp: norm_state_def Let_def tables_eq SCOPE_TOKENS_def REGION_TOKENS_def
           split: if_splits option.splits dest: abbr_of_fips_SomeD map_of_SomeD)

lemma entry_resolves:
  assumes "(a, f) \<in> set STATE_ABBR_TO_FIPS"
  shows "map_of STATE_ABBR_TO_FIPS a = Some f \<and> abbr_of_fips STATE_ABBR_TO_FIPS f = Some a"
  using assms distinct_abbrs distinct_fips by (simp add: abbr_of_fips_entry)


lemma round_trip_all:
  "list_all (\<lambda>(a, f). normalize_state a = Inr (a, f) \<and> normalize_state f = Inr (a, f)
       \<and> norm_state a = Inr (a, f) \<and> norm_state f = Inr (a, f)) STATE_ABBR_TO_FIPS"
  by code_simp

text \<open>
  C8. For every entry of the state reference table, the resolver maps the two-letter token
  to the entry's numeric code, and maps that numeric code back to the same token. Both
  resolvers do: \<open>normalize_state\<close> of the command-line tool and \<open>norm_state\<close> of the
  serving layer.
\<close>

theorem state_round_trip:
  assumes "(a, f) \<in> set STATE_ABBR_TO_FIPS"
  shows "normalize_state a = Inr (a, f) \<and> normalize_state f = Inr (a, f)
       \<and> norm_state a = Inr (a, f) \<and> norm_state f = Inr (a, f)"
  using round_trip_all assms by (auto simp: list_all_iff)

theorem state_round_trip_witness:
  "(''FL'', ''12'') \<in> set STATE_ABBR_TO_FIPS
   \<and> normalize_state ''FL'' = Inr (''FL'', ''12'') \<and> normalize_state ''12'' = Inr (''FL'', ''12'')"
proof -
  have h: "(''FL'', ''12'') \<in> set STATE_ABBR_TO_FIPS" by (simp add: STATE_ABBR_TO_FIPS_def)
  show ?thesis using h state_round_trip [OF h] by simp
qed

text \<open>
  C9, as stated: the state reference table has exactly 56 entries. It has 57.
\<close>

theorem state_table_56_counterexample: "length STATE_ABBR_TO_FIPS \<noteq> 56"
  by (simp add: STATE_ABBR_TO_FIPS_def)

text \<open>
  C9, amended. The state reference table has exactly 57 entries (50 states, the District
  of Columbia, and the six codes AS, GU, MP, PR, VI and UM), with pairwise distinct
  abbreviations and pairwise distinct numeric codes; the serving layer's copy is the same
  table. Every pair the command-line resolver returns, and every pair the serving-layer
  resolver returns for a token that is not a scope token, is an entry of the table: its
  abbreviation looks up its numeric code and its numeric code looks up its abbreviation.
\<close>

theorem state_identity_entry:
  "length STATE_ABBR_TO_FIPS = 57
   \<and> STATE_ABBR_TO_FIPS_api = STATE_ABBR_TO_FIPS
   \<and> distinct (map fst STATE_ABBR_TO_FIPS) \<and> distinct (map snd STATE_ABBR_TO_FIPS)
   \<and> (ascii t \<and> (normalize_state t = Inr (a, f)
                  \<or> norm_state t = Inr (a, f) \<and> strip t \<notin> set SCOPE_TOKENS)
      \<longrightarrow> (a, f) \<in> set STATE_ABBR_TO_FIPS
          \<and> map_of STATE_ABBR_TO_FIPS a = Some f \<and> abbr_of_fips STATE_ABBR_TO_FIPS f = Some a)"
proof -
  have "length STATE_ABBR_TO_FIPS = 57" by (simp add: STATE_ABBR_TO_FIPS_def)
  moreover have "(a, f) \<in> set STATE_ABBR_TO_FIPS
      \<and> map_of STATE_ABBR_TO_FIPS a = Some f \<and> abbr_of_fips STATE_ABBR_TO_FIPS f = Some a"
    if "normalize_state t = Inr (a, f) \<or> norm_state t = Inr (a, f) \<and> strip t \<notin> set SCOPE_TOKENS"
    using that normalize_state_entry norm_state_entry entry_resolves by blast
  ultimately show ?thesis using tables_eq distinct_abbrs distinct_fips by blast
qed

theorem state_identity_entry_witness:
  "ascii '' fl '' \<and> normalize_state '' fl '' = Inr (''FL'', ''12'')
   \<and> (''FL'', ''12'') \<in> set STATE_ABBR_TO_FIPS
   \<and> map_of STATE_ABBR_TO_FIPS ''FL'' = Some ''12''
   \<and> abbr_of_fips STATE_ABBR_TO_FIPS ''12'' = Some ''FL''"
proof -
  have a: "ascii '' fl ''" by (simp add: ascii_def)
  have n: "normalize_state '' fl '' = Inr (''FL'', ''12'')" by code_simp
  show ?thesis using a n state_identity_entry [of "'' fl ''" "''FL''" "''12''"] by blast
qed

lemma norm_state_lower_scope:
  assumes u: "upper (strip t) \<in> set SCOPE_TOKENS" and n: "strip t \<notin> set SCOPE_TOKENS"
  shows "norm_state t = Inl (UnknownState t)"
proof -
  have ne: "strip t \<noteq> []" using u by (auto simp: SCOPE_TOKENS_def upper_def)
  have nd: "\<not> (length (strip t) = 2 \<and> isdigit (strip t))"
  proof
    assume d: "length (strip t) = 2 \<and> isdigit (strip t)"
    then have "upper (strip t) = strip t"
      by (auto simp: isdigit_def upper_def list_all_iff upper_char_digit intro: map_idI)
    with u n show False by simp
  qed
  have "map_of STATE_ABBR_TO_FIPS (upper (strip t)) = None"
  proof (cases "map_of STATE_ABBR_TO_FIPS (upper (strip t))")
    case (Some f)
    then have "(upper (strip t), f) \<in> set STATE_ABBR_TO_FIPS" by (rule map_of_SomeD)
    then show ?thesis using keys_shapeD(3) u by blast
  qed simp
  then show ?thesis using ne nd n
    by (auto simp: norm_state_def Let_def tables_eq SCOPE_TOKENS_def REGION_TOKENS_def)
qed

text \<open>
  C10. The serving-layer resolver compares the stripped token with the scope tokens before
  it uppercases it. A token that uppercases to an abbreviation of the table resolves to
  that entry, so \<open>fl\<close> gives \<open>(FL, 12)\<close>. A scope token is returned exactly when the
  stripped token is that scope token, letter for letter; a token that only uppercases to
  a scope token, such as \<open>us\<close> or \<open>northeast\<close>, is rejected as an unknown state.
\<close>

theorem norm_state_case_rule:
  "norm_state ''fl'' = Inr (''FL'', ''12'')
   \<and> norm_state ''us'' = Inl (UnknownState ''us'')
   \<and> norm_state ''northeast'' = Inl (UnknownState ''northeast'')
   \<and> (ascii t \<and> (a, f) \<in> set STATE_ABBR_TO_FIPS_api \<and> upper t = a \<longrightarrow> norm_state t = Inr (a, f))
   \<and> (ascii t \<and> s \<in> set SCOPE_TOKENS \<longrightarrow>
        (strip t = s \<longrightarrow> norm_state t = Inr (s, s))
      \<and> ((\<exists>y. norm_state t = Inr (s, y)) \<longrightarrow> strip t = s)
      \<and> (upper (strip t) = s \<and> strip t \<noteq> s \<longrightarrow> norm_state t = Inl (UnknownState t)))"
proof -
  have 1: "norm_state ''fl'' = Inr (''FL'', ''12'')" by code_simp
  have 2: "norm_state ''us'' = Inl (UnknownState ''us'')" by code_simp
  have 3: "norm_state ''northeast'' = Inl (UnknownState ''northeast'')" by code_simp
  have 4: "norm_state t = Inr (a, f)" if "(a, f) \<in> set STATE_ABBR_TO_FIPS_api" "upper t = a"
    using that by (rule norm_state_abbr)
  have 5: "norm_state t = Inr (s, s)" if "s \<in> set SCOPE_TOKENS" "strip t = s"
    using that by (auto simp: norm_state_def Let_def SCOPE_TOKENS_def REGION_TOKENS_def)
  have 6: "strip t = s" if "s \<in> set SCOPE_TOKENS" "\<exists>y. norm_state t = Inr (s, y)"
    using that norm_state_scope by blast
  have 7: "norm_state t = Inl (UnknownState t)"
    if "s \<in> set SCOPE_TOKENS" "upper (strip t) = s" "strip t \<noteq> s"
  proof (rule norm_state_lower_scope)
    show "upper (strip t) \<in> set SCOPE_TOKENS" using that by simp
    show "strip t \<notin> set SCOPE_TOKENS"
    proof
      assume "strip t \<in> set SCOPE_TOKENS"
      then have "upper (strip t) = strip t" by (rule upper_scope)
      with that show False by simp
    qed
  qed
  show ?thesis using 1 2 3 4 5 6 7 by blast
qed

theorem norm_state_case_rule_witness:
  "ascii ''Ny'' \<and> (''NY'', ''36'') \<in> set STATE_ABBR_TO_FIPS_api \<and> upper ''Ny'' = ''NY''
   \<and> norm_state ''Ny'' = Inr (''NY'', ''36'')
   \<and> ascii ''West'' \<and> ''WEST'' \<in> set SCOPE_TOKENS \<and> upper (strip ''West'') = ''WEST''
   \<and> strip ''West'' \<noteq> ''WEST''
   \<and> norm_state ''West'' = Inl (UnknownState ''West'')"
proof -
  have a: "ascii ''Ny''" "ascii ''West''" by (simp_all add: ascii_def)
  have e: "(''NY'', ''36'') \<in> set STATE_ABBR_TO_FIPS_api" by (simp add: STATE_ABBR_TO_FIPS_api_def)
  have u: "upper ''Ny'' = ''NY''" by code_simp
  have s: "''WEST'' \<in> set SCOPE_TOKENS" by (simp add: SCOPE_TOKENS_def)
  have v: "upper (strip ''West'') = ''WEST''" "strip ''West'' \<noteq> ''WEST''" by code_simp+
  from a(1) e u norm_state_case_rule [of "''Ny''" "''NY''" "''36''" "''WEST''"]
  have r1: "norm_state ''Ny'' = Inr (''NY'', ''36'')" by blast
  from a(2) s v norm_state_case_rule [of "''West''" "''NY''" "''36''" "''WEST''"]
  have r2: "norm_state ''West'' = Inl (UnknownState ''West'')" by blast
  show ?thesis using a e u s v r1 r2 by blast
qed

section \<open>Properties of the key normalizer and of the merge\<close>

lemma key_width_spec: "(level, w) \<in> set spec_key_widths \<Longrightarrow> key_width level = Some w"
  by (auto simp: spec_key_widths_def key_width_def)

lemma drop_non_digits:
  "list_all (\<lambda>c. \<not> is_digit c) pre \<Longrightarrow> d \<noteq> [] \<Longrightarrow> list_all is_digit d
   \<Longrightarrow> dropWhile (\<lambda>c. \<not> is_digit c) (pre @ d @ rest) = d @ rest"
  by (induction pre) (auto simp: neq_Nil_conv)

lemma take_digits:
  "list_all is_digit d \<Longrightarrow> rest = [] \<or> \<not> is_digit (hd rest)
   \<Longrightarrow> takeWhile is_digit (d @ rest) = d"
  by (induction d) (auto simp: neq_Nil_conv takeWhile_eq_Nil_iff)

lemma extract_digits_run:
  assumes "list_all (\<lambda>c. \<not> is_digit c) pre" "d \<noteq> []" "list_all is_digit d"
    "rest = [] \<or> \<not> is_digit (hd rest)"
  shows "extract_digits (pre @ d @ rest) = Some d"
  using assms by (simp add: extract_digits_def drop_non_digits take_digits)

lemma extract_digits_none:
  "list_all (\<lambda>c. \<not> is_digit c) s \<Longrightarrow> extract_digits s = None"
  by (induction s) (auto simp: extract_digits_def)

lemma extract_digits_Some:
  "extract_digits s = Some d \<Longrightarrow>
     \<exists>pre rest. s = pre @ d @ rest \<and> list_all (\<lambda>c. \<not> is_digit c) pre \<and> d \<noteq> []
        \<and> list_all is_digit d \<and> (rest = [] \<or> \<not> is_digit (hd rest))"
proof -
  assume a: "extract_digits s = Some d"
  let ?pre = "takeWhile (\<lambda>c. \<not> is_digit c) s"
  let ?t = "dropWhile (\<lambda>c. \<not> is_digit c) s"
  from a have d: "d = takeWhile is_digit ?t" "d \<noteq> []"
    by (auto simp: extract_digits_def Let_def split: if_splits)
  have "s = ?pre @ d @ dropWhile is_digit ?t" using d by simp
  moreover have "list_all (\<lambda>c. \<not> is_digit c) ?pre"
    by (auto simp: list_all_iff dest: set_takeWhileD)
  moreover have "list_all is_digit d" using d by (auto simp: list_all_iff dest: set_takeWhileD)
  moreover have "dropWhile is_digit ?t = [] \<or> \<not> is_digit (hd (dropWhile is_digit ?t))"
    using hd_dropWhile by blast
  ultimately show ?thesis using d(2) by blast
qed

lemma merge_left_set_Cons:
  "set (merge_left lkey rkey (g # gdf) df) =
     (if filter (\<lambda>r. rkey r = lkey g) df = [] then {(g, None)}
      else (\<lambda>r. (g, Some r)) ` set (filter (\<lambda>r. rkey r = lkey g) df))
     \<union> set (merge_left lkey rkey gdf df)"
  by (cases "filter (\<lambda>r. rkey r = lkey g) df") auto

lemma merge_left_SomeD:
  "(g, Some r) \<in> set (merge_left lkey rkey gdf df) \<Longrightarrow> g \<in> set gdf \<and> r \<in> set df \<and> rkey r = lkey g"
  by (induction gdf) (auto simp: merge_left_set_Cons simp del: merge_left.simps(2) split: if_splits)

lemma zfill_digits:
  "d \<noteq> [] \<Longrightarrow> list_all is_digit d \<Longrightarrow> zfill w d = replicate (w - length d) (CHR ''0'') @ d"
  by (cases d) (auto simp: zfill_def is_digit_def)

lemma zfill_length: "w \<le> length (zfill w s) \<and> length s \<le> length (zfill w s)"
  by (cases s) (auto simp: zfill_def)

lemma geometry_key_zcta: "geometry_key ''zcta'' x \<noteq> []"
  using zfill_length [of 5 x] by (auto simp: geometry_key_def)

lemma col_set_col: "col (set_col df c v) c = v"
  by (simp add: col_def set_col_def update_conv')


lemma merge_left_fst:
  "map fst (merge_left lkey rkey gdf df) =
     concat (map (\<lambda>g. replicate (max 1 (length (filter (\<lambda>r. rkey r = lkey g) df))) g) gdf)"
proof (induction gdf)
  case Nil
  show ?case by simp
next
  case (Cons g gdf)
  have "map fst (case filter (\<lambda>r. rkey r = lkey g) df of [] \<Rightarrow> [(g, None)]
                 | ms \<Rightarrow> map (\<lambda>r. (g, Some r)) ms)
        = replicate (max 1 (length (filter (\<lambda>r. rkey r = lkey g) df))) g"
    by (cases "filter (\<lambda>r. rkey r = lkey g) df") (auto simp: map_replicate_const comp_def)
  with Cons show ?case by simp
qed

lemma distinct_key_matches:
  "distinct (map rkey df) \<Longrightarrow> length (filter (\<lambda>r. rkey r = k) df) \<le> 1"
proof (induction df)
  case Nil
  show ?case by simp
next
  case (Cons r df)
  show ?case
  proof (cases "rkey r = k")
    case True
    have "rkey r \<notin> rkey ` set df" using Cons.prems by simp
    then have "\<forall>x \<in> set df. rkey x \<noteq> rkey r" by (metis imageI)
    then have "filter (\<lambda>r. rkey r = k) df = []" using True by (simp add: filter_empty_conv)
    with True show ?thesis by simp
  next
    case False
    with Cons show ?thesis by simp
  qed
qed

lemma merge_left_distinct:
  assumes "distinct (map rkey df)"
  shows "map fst (merge_left lkey rkey gdf df) = gdf"
proof -
  have "max 1 (length (filter (\<lambda>r. rkey r = lkey g) df)) = 1" for g
    using distinct_key_matches [OF assms, of "lkey g"] by simp
  then show ?thesis by (simp add: merge_left_fst)
qed

lemma merge_left_unmatched:
  assumes "g \<in> set gdf" "lkey g \<notin> rkey ` set df"
  shows "(g, None) \<in> set (merge_left lkey rkey gdf df)"
proof -
  have f: "filter (\<lambda>r. rkey r = lkey g) df = []" using assms(2) by (force simp: filter_empty_conv)
  show ?thesis using assms(1)
    by (induction gdf) (auto simp: merge_left_set_Cons f simp del: merge_left.simps(2))
qed

text \<open>
  C2, as stated: the merge output has exactly one row per geometry row. It has two rows for
  a geometry row whose key two CSV rows carry.
\<close>

theorem merge_one_row_counterexample:
  "map fst (merge_left id fst [''12001''] [(''12001'', 1 :: nat), (''12001'', 2)]) \<noteq> [''12001'']"
  by simp

text \<open>
  C2, amended. The merge output lists the geometry rows in their order, each as many times
  as CSV rows carry its key and once when none does; so it has at least one row per
  geometry row, and exactly one when the CSV keys are pairwise distinct. A geometry row
  whose key matches no CSV row appears with null in every CSV attribute column, and a CSV
  row whose key matches no geometry row is in no output row.
\<close>

theorem merge_left_rows:
  "map fst (merge_left lkey rkey gdf df) =
     concat (map (\<lambda>g. replicate (max 1 (length (filter (\<lambda>r. rkey r = lkey g) df))) g) gdf)
   \<and> (distinct (map rkey df) \<longrightarrow> map fst (merge_left lkey rkey gdf df) = gdf)
   \<and> (g \<in> set gdf \<and> lkey g \<notin> rkey ` set df \<longrightarrow>
        (g, None) \<in> set (merge_left lkey rkey gdf df)
      \<and> (\<forall>x. (g, x) \<in> set (merge_left lkey rkey gdf df) \<longrightarrow>
              x = None \<and> csv_attribute get (g, x) c = Num NaN))
   \<and> (rkey r \<notin> lkey ` set gdf \<longrightarrow> (\<forall>g'. (g', Some r) \<notin> set (merge_left lkey rkey gdf df)))"
proof -
  have 3: "x = None \<and> csv_attribute get (g, x) c = Num NaN"
    if "lkey g \<notin> rkey ` set df" "(g, x) \<in> set (merge_left lkey rkey gdf df)" for x
  proof (cases x)
    case None
    then show ?thesis by simp
  next
    case (Some r')
    with that(2) have "r' \<in> set df \<and> rkey r' = lkey g" using merge_left_SomeD by fastforce
    with that(1) show ?thesis by force
  qed
  have 4: "(g', Some r) \<notin> set (merge_left lkey rkey gdf df)" if "rkey r \<notin> lkey ` set gdf" for g'
    using that merge_left_SomeD by fastforce
  show ?thesis
  proof (intro conjI impI allI)
    show "map fst (merge_left lkey rkey gdf df) =
      concat (map (\<lambda>g. replicate (max 1 (length (filter (\<lambda>r. rkey r = lkey g) df))) g) gdf)"
      by (rule merge_left_fst)
    show "map fst (merge_left lkey rkey gdf df) = gdf" if "distinct (map rkey df)"
      using that by (rule merge_left_distinct)
    show "(g, None) \<in> set (merge_left lkey rkey gdf df)"
      if "g \<in> set gdf \<and> lkey g \<notin> rkey ` set df"
      using that merge_left_unmatched [of g gdf lkey rkey df] by simp
    show "x = None" if "g \<in> set gdf \<and> lkey g \<notin> rkey ` set df"
      "(g, x) \<in> set (merge_left lkey rkey gdf df)" for x
      using that 3 [of x] by simp
    show "csv_attribute get (g, x) c = Num NaN" if "g \<in> set gdf \<and> lkey g \<notin> rkey ` set df"
      "(g, x) \<in> set (merge_left lkey rkey gdf df)" for x
      using that 3 [of x] by simp
    show "(g', Some r) \<notin> set (merge_left lkey rkey gdf df)" if "rkey r \<notin> lkey ` set gdf" for g'
      using that by (rule 4)
  qed
qed

theorem merge_left_rows_witness:
  "merge_left id fst [''12001'', ''12003'', ''12005''] [(''12003'', 7 :: nat), (''99999'', 8)]
     = [(''12001'', None), (''12003'', Some (''12003'', 7)), (''12005'', None)]
   \<and> distinct (map fst [(''12003'', 7 :: nat), (''99999'', 8)])
   \<and> map fst (merge_left id fst [''12001'', ''12003'', ''12005''] [(''12003'', 7 :: nat), (''99999'', 8)])
       = [''12001'', ''12003'', ''12005'']
   \<and> ''12001'' \<in> set [''12001'', ''12003'', ''12005'']
   \<and> id ''12001'' \<notin> fst ` set [(''12003'', 7 :: nat), (''99999'', 8)]
   \<and> (''12001'', None) \<in> set (merge_left id fst [''12001'', ''12003'', ''12005''] [(''12003'', 7 :: nat), (''99999'', 8)])"
  using merge_left_rows [of id fst "[''12001'', ''12003'', ''12005'']" "[(''12003'', 7 :: nat), (''99999'', 8)]"
      "''12001''" "\<lambda>r c. Num NaN" "''x''" "(''99999'', 8)"]
  by simp

lemma find_Some_mem: "find P xs = Some x \<Longrightarrow> x \<in> set xs \<and> P x"
  by (induction xs) (auto split: if_splits)

lemma find_None_all: "find P xs = None \<Longrightarrow> \<forall>x \<in> set xs. \<not> P x"
  by (induction xs) (auto split: if_splits)

lemma normalize_csv_key_result:
  "(normalize_csv_key astype_str level df provided = Inl e \<longrightarrow>
       e = MissingJoinColumn (candidate_columns level provided)
     \<and> (\<forall>c \<in> set (candidate_columns level provided). c \<notin> set (columns df)))
   \<and> (normalize_csv_key astype_str level df provided = Inr (df', k) \<longrightarrow>
       k = ''_J''
     \<and> (\<exists>key \<in> set (candidate_columns level provided). key \<in> set (columns df)
          \<and> col df' ''_J'' = map (\<lambda>v. Str (normalize_value level (astype_str v))) (col df key)))"
  by (auto simp: normalize_csv_key_def Let_def col_set_col split: option.splits
           dest: find_Some_mem find_None_all)

lemma zcta_csv_key_none: "list_all (\<lambda>c. \<not> is_digit c) s \<Longrightarrow> zcta_csv_key s = None"
  by (simp add: zcta_csv_key_def extract_digits_none)

lemma find_present: "\<exists>c \<in> set xs. P c \<Longrightarrow> \<exists>key. find P xs = Some key"
  by (cases "find P xs") (auto simp: find_None_iff)

lemma normalize_csv_key_returns:
  assumes "\<exists>c \<in> set (candidate_columns level provided). c \<in> set (columns csv)"
  shows "\<exists>csv' key. key \<in> set (candidate_columns level provided) \<and> key \<in> set (columns csv)
      \<and> normalize_csv_key astype_str level csv provided = Inr (csv', ''_J'')
      \<and> col csv' ''_J'' = map (\<lambda>v. Str (normalize_value level (astype_str v))) (col csv key)"
proof -
  from find_present [of "candidate_columns level provided" "\<lambda>c. c \<in> set (columns csv)"] assms
  obtain key where k: "find (\<lambda>c. c \<in> set (columns csv)) (candidate_columns level provided) = Some key"
    by blast
  then have m: "key \<in> set (candidate_columns level provided) \<and> key \<in> set (columns csv)"
    using find_Some_mem by fastforce
  have "normalize_csv_key astype_str level csv provided
      = Inr (set_col csv ''_J'' (map (\<lambda>v. Str (normalize_value level (astype_str v))) (col csv key)), ''_J'')"
    using k by (simp add: normalize_csv_key_def comp_def)
  then show ?thesis using m col_set_col by blast
qed

lemma zcta_csv_key_run:
  assumes "list_all (\<lambda>c. \<not> is_digit c) pre" "d \<noteq> []" "list_all is_digit d"
    "rest = [] \<or> \<not> is_digit (hd rest)"
  shows "zcta_csv_key (pre @ d @ rest) = Some (replicate (5 - length d) (CHR ''0'') @ d)"
  using assms by (simp add: zcta_csv_key_def extract_digits_run zfill_digits)

lemma prepare_zcta_csv_result:
  "((\<exists>c \<in> set ZIP_COLUMNS. c \<in> set (columns csv)) \<longrightarrow>
      (\<exists>csv' key. key \<in> set ZIP_COLUMNS \<and> key \<in> set (columns csv)
         \<and> prepare_zcta_csv astype_str csv = Inr csv'
         \<and> col csv' ''_ZCTA5'' = map (\<lambda>v. key_cell (zcta_csv_key (astype_str v))) (col csv key)))
   \<and> (prepare_zcta_csv astype_str csv = Inl e \<longrightarrow>
        e = MissingJoinColumn ZIP_COLUMNS \<and> (\<forall>c \<in> set ZIP_COLUMNS. c \<notin> set (columns csv)))"
proof (intro conjI impI)
  assume "\<exists>c \<in> set ZIP_COLUMNS. c \<in> set (columns csv)"
  with find_present [of ZIP_COLUMNS "\<lambda>c. c \<in> set (columns csv)"]
  obtain key where k: "find (\<lambda>c. c \<in> set (columns csv)) ZIP_COLUMNS = Some key" by blast
  then have m: "key \<in> set ZIP_COLUMNS \<and> key \<in> set (columns csv)" using find_Some_mem by fastforce
  have "prepare_zcta_csv astype_str csv
      = Inr (set_col csv ''_ZCTA5'' (map (\<lambda>v. key_cell (zcta_csv_key (astype_str v))) (col csv key)))"
    using k by (simp add: prepare_zcta_csv_def)
  then show "\<exists>csv' key. key \<in> set ZIP_COLUMNS \<and> key \<in> set (columns csv)
         \<and> prepare_zcta_csv astype_str csv = Inr csv'
         \<and> col csv' ''_ZCTA5'' = map (\<lambda>v. key_cell (zcta_csv_key (astype_str v))) (col csv key)"
    using m col_set_col by blast
next
  assume a: "prepare_zcta_csv astype_str csv = Inl e"
  then show "e = MissingJoinColumn ZIP_COLUMNS"
    by (auto simp: prepare_zcta_csv_def split: option.splits)
  from a show "\<forall>c \<in> set ZIP_COLUMNS. c \<notin> set (columns csv)"
    by (auto simp: prepare_zcta_csv_def split: option.splits dest: find_None_all)
qed

lemma zfill_plain:
  "s = [] \<or> (hd s \<noteq> CHR ''+'' \<and> hd s \<noteq> CHR ''-'') \<Longrightarrow> zfill w s = replicate (w - length s) (CHR ''0'') @ s"
  by (cases s) (auto simp: zfill_def)

lemma prepare_geoid_csv_result:
  "(''GEOID'' \<in> set (columns csv) \<longrightarrow>
      (\<exists>p c. prepare_place_csv astype_str csv = Inr p
         \<and> col p ''GEOID'' = map (\<lambda>v. Str (place_csv_key (astype_str v))) (col csv ''GEOID'')
         \<and> prepare_cousub_csv astype_str csv = Inr c
         \<and> col c ''GEOID'' = map (\<lambda>v. Str (cousub_csv_key (astype_str v))) (col csv ''GEOID'')))
   \<and> (''GEOID'' \<notin> set (columns csv) \<longrightarrow>
        prepare_place_csv astype_str csv = Inl (MissingJoinColumn [''GEOID''])
      \<and> prepare_cousub_csv astype_str csv = Inl (MissingJoinColumn [''GEOID'']))"
  by (simp add: prepare_place_csv_def prepare_cousub_csv_def col_set_col)

lemma merge_no_match:
  assumes "\<forall>g \<in> set gdf. lkey g \<noteq> rkey r"
  shows "(g, Some r) \<notin> set (merge_left lkey rkey gdf df)"
proof
  assume "(g, Some r) \<in> set (merge_left lkey rkey gdf df)"
  then have "g \<in> set gdf \<and> rkey r = lkey g" using merge_left_SomeD by fastforce
  with assms show False by auto
qed


text \<open>
  C3, as stated: the key of a value with no digit is the empty string, and the key is the
  zero-padded first run of digits, at every level. In the command-line tool the key of a
  ZIP value with no digit is null, and the key of the place identifier \<open>FL-012345\<close> is
  not \<open>0012345\<close>.
\<close>

theorem cli_key_counterexample:
  "zcta_csv_key ''n/a'' \<noteq> Some [] \<and> place_csv_key ''FL-012345'' \<noteq> ''0012345''"
  by code_simp

text \<open>
  C3, amended. In the key normalizer of the serving layer, at each of the seven geography
  levels, with the width the specification gives it, the key of a value is its first run
  of digits (what precedes it has no digit, what follows it does not start with a digit),
  zero-padded on the left to the width; the key of a value with no digit is the empty
  string, and it is empty only then. An empty key equals no non-empty geometry key, so its
  CSV row is in no row of the merge. \<open>normalize_csv_key\<close> returns the column \<^verbatim>\<open>_J\<close> of
  these keys whenever one of the candidate columns is present, and raises, for a missing
  join column, only when none is. In the command-line tool, \<^verbatim>\<open>prepare_zcta\<close> derives the
  key in the same way at width 5, except that the key of a value with no digit is null,
  not the empty string; a null key equals no geometry key either, and \<^verbatim>\<open>prepare_zcta\<close>
  raises only when none of its ZIP columns is present. \<^verbatim>\<open>prepare_place\<close> and
  \<^verbatim>\<open>prepare_cousub\<close> extract nothing: they zero-fill the string form of the
  \<^verbatim>\<open>GEOID\<close> column to 7 and 10.
\<close>

theorem join_key_rule:
  assumes "(level, w) \<in> set spec_key_widths" and "ascii s"
  shows "(s = pre @ d @ rest \<and> list_all (\<lambda>c. \<not> is_digit c) pre \<and> d \<noteq> [] \<and> list_all is_digit d
            \<and> (rest = [] \<or> \<not> is_digit (hd rest))
          \<longrightarrow> normalize_value level s = replicate (w - length d) (CHR ''0'') @ d
              \<and> zcta_csv_key s = Some (replicate (5 - length d) (CHR ''0'') @ d))
       \<and> (list_all (\<lambda>c. \<not> is_digit c) s
          \<longrightarrow> normalize_value level s = [] \<and> zcta_csv_key s = None
              \<and> (rkey r = normalize_value level s \<and> list_all (\<lambda>g. lkey g \<noteq> []) gdf
                 \<longrightarrow> (\<forall>g. (g, Some r) \<notin> set (merge_left lkey rkey gdf df)))
              \<and> (ckey r = key_cell (zcta_csv_key s) \<and> list_all (\<lambda>g. \<exists>k. gkey g = Str k) gdf
                 \<longrightarrow> (\<forall>g. (g, Some r) \<notin> set (merge_left gkey ckey gdf df))))
       \<and> (normalize_value level s = [] \<longrightarrow> list_all (\<lambda>c. \<not> is_digit c) s)
       \<and> ((\<exists>c \<in> set (candidate_columns level provided). c \<in> set (columns csv)) \<longrightarrow>
            (\<exists>csv' key. key \<in> set (candidate_columns level provided) \<and> key \<in> set (columns csv)
               \<and> normalize_csv_key astype_str level csv provided = Inr (csv', ''_J'')
               \<and> col csv' ''_J'' = map (\<lambda>v. Str (normalize_value level (astype_str v))) (col csv key)))
       \<and> (normalize_csv_key astype_str level csv provided = Inl e \<longrightarrow>
            e = MissingJoinColumn (candidate_columns level provided)
          \<and> (\<forall>c \<in> set (candidate_columns level provided). c \<notin> set (columns csv)))
       \<and> ((\<exists>c \<in> set ZIP_COLUMNS. c \<in> set (columns csv)) \<longrightarrow>
            (\<exists>csv' key. key \<in> set ZIP_COLUMNS \<and> key \<in> set (columns csv)
               \<and> prepare_zcta_csv astype_str csv = Inr csv'
               \<and> col csv' ''_ZCTA5'' = map (\<lambda>v. key_cell (zcta_csv_key (astype_str v))) (col csv key)))
       \<and> (prepare_zcta_csv astype_str csv = Inl e \<longrightarrow>
            e = MissingJoinColumn ZIP_COLUMNS \<and> (\<forall>c \<in> set ZIP_COLUMNS. c \<notin> set (columns csv)))
       \<and> (''GEOID'' \<in> set (columns csv) \<longrightarrow>
            (\<exists>p c. prepare_place_csv astype_str csv = Inr p
               \<and> col p ''GEOID'' = map (\<lambda>v. Str (place_csv_key (astype_str v))) (col csv ''GEOID'')
               \<and> prepare_cousub_csv astype_str csv = Inr c
               \<and> col c ''GEOID'' = map (\<lambda>v. Str (cousub_csv_key (astype_str v))) (col csv ''GEOID'')))
       \<and> (s = [] \<or> (hd s \<noteq> CHR ''+'' \<and> hd s \<noteq> CHR ''-'') \<longrightarrow>
            place_csv_key s = replicate (7 - length s) (CHR ''0'') @ s
          \<and> cousub_csv_key s = replicate (10 - length s) (CHR ''0'') @ s)"
proof -
  have kw: "key_width level = Some w" using assms(1) by (rule key_width_spec)
  have 1: "normalize_value level s = replicate (w - length d) (CHR ''0'') @ d"
    if "s = pre @ d @ rest" "list_all (\<lambda>c. \<not> is_digit c) pre" "d \<noteq> []" "list_all is_digit d"
       "rest = [] \<or> \<not> is_digit (hd rest)"
    using that kw by (simp add: normalize_value_def extract_digits_run zfill_digits)
  have 2: "normalize_value level s = []" if "list_all (\<lambda>c. \<not> is_digit c) s"
    using that kw by (simp add: normalize_value_def extract_digits_none)
  have 4: "list_all (\<lambda>c. \<not> is_digit c) s" if e: "normalize_value level s = []"
  proof (cases "extract_digits s")
    case None
    then have "takeWhile is_digit (dropWhile (\<lambda>c. \<not> is_digit c) s) = []"
      by (auto simp: extract_digits_def Let_def split: if_splits)
    then have "dropWhile (\<lambda>c. \<not> is_digit c) s = []"
      using hd_dropWhile [of "\<lambda>c. \<not> is_digit c" s] by (auto simp: takeWhile_eq_Nil_iff)
    then show ?thesis by (auto simp: dropWhile_eq_Nil_conv list_all_iff)
  next
    case (Some d)
    then have "d \<noteq> []" by (auto simp: extract_digits_def Let_def split: if_splits)
    with e Some kw zfill_length [of w d] show ?thesis by (simp add: normalize_value_def)
  qed
  show ?thesis
  proof (intro conjI impI allI)
    assume a: "s = pre @ d @ rest \<and> list_all (\<lambda>c. \<not> is_digit c) pre \<and> d \<noteq> [] \<and> list_all is_digit d
            \<and> (rest = [] \<or> \<not> is_digit (hd rest))"
    show "normalize_value level s = replicate (w - length d) (CHR ''0'') @ d" using a 1 by simp
    show "zcta_csv_key s = Some (replicate (5 - length d) (CHR ''0'') @ d)"
      using a zcta_csv_key_run [of pre d rest] by simp
  next
    assume n: "list_all (\<lambda>c. \<not> is_digit c) s"
    show "normalize_value level s = []" using n by (rule 2)
    show z: "zcta_csv_key s = None" using n by (rule zcta_csv_key_none)
    show "(g, Some r) \<notin> set (merge_left lkey rkey gdf df)"
      if "rkey r = normalize_value level s \<and> list_all (\<lambda>g. lkey g \<noteq> []) gdf" for g
    proof (rule merge_no_match)
      show "\<forall>g \<in> set gdf. lkey g \<noteq> rkey r" using that 2 [OF n] by (simp add: list_all_iff)
    qed
    show "(g, Some r) \<notin> set (merge_left gkey ckey gdf df)"
      if "ckey r = key_cell (zcta_csv_key s) \<and> list_all (\<lambda>g. \<exists>k. gkey g = Str k) gdf" for g
    proof (rule merge_no_match)
      show "\<forall>g \<in> set gdf. gkey g \<noteq> ckey r" using that z by (auto simp: list_all_iff key_cell_def)
    qed
  next
    show "list_all (\<lambda>c. \<not> is_digit c) s" if "normalize_value level s = []"
      using that by (rule 4)
  next
    assume "\<exists>c \<in> set (candidate_columns level provided). c \<in> set (columns csv)"
    then show "\<exists>csv' key. key \<in> set (candidate_columns level provided) \<and> key \<in> set (columns csv)
               \<and> normalize_csv_key astype_str level csv provided = Inr (csv', ''_J'')
               \<and> col csv' ''_J'' = map (\<lambda>v. Str (normalize_value level (astype_str v))) (col csv key)"
      by (rule normalize_csv_key_returns)
  next
    assume a: "normalize_csv_key astype_str level csv provided = Inl e"
    show "e = MissingJoinColumn (candidate_columns level provided)"
      using a normalize_csv_key_result [of astype_str level csv provided e] by simp
    show "\<forall>c \<in> set (candidate_columns level provided). c \<notin> set (columns csv)"
      using a normalize_csv_key_result [of astype_str level csv provided e] by simp
  next
    assume "\<exists>c \<in> set ZIP_COLUMNS. c \<in> set (columns csv)"
    then show "\<exists>csv' key. key \<in> set ZIP_COLUMNS \<and> key \<in> set (columns csv)
               \<and> prepare_zcta_csv astype_str csv = Inr csv'
               \<and> col csv' ''_ZCTA5'' = map (\<lambda>v. key_cell (zcta_csv_key (astype_str v))) (col csv key)"
      using prepare_zcta_csv_result [of csv astype_str e] by blast
  next
    assume a: "prepare_zcta_csv astype_str csv = Inl e"
    show "e = MissingJoinColumn ZIP_COLUMNS" using a prepare_zcta_csv_result [of csv astype_str e] by blast
    show "\<forall>c \<in> set ZIP_COLUMNS. c \<notin> set (columns csv)"
      using a prepare_zcta_csv_result [of csv astype_str e] by blast
  next
    assume "''GEOID'' \<in> set (columns csv)"
    then show "\<exists>p c. prepare_place_csv astype_str csv = Inr p
               \<and> col p ''GEOID'' = map (\<lambda>v. Str (place_csv_key (astype_str v))) (col csv ''GEOID'')
               \<and> prepare_cousub_csv astype_str csv = Inr c
               \<and> col c ''GEOID'' = map (\<lambda>v. Str (cousub_csv_key (astype_str v))) (col csv ''GEOID'')"
      using prepare_geoid_csv_result [of csv astype_str] by blast
  next
    assume a: "s = [] \<or> (hd s \<noteq> CHR ''+'' \<and> hd s \<noteq> CHR ''-'')"
    show "place_csv_key s = replicate (7 - length s) (CHR ''0'') @ s"
      using a by (simp add: place_csv_key_def zfill_plain)
    show "cousub_csv_key s = replicate (10 - length s) (CHR ''0'') @ s"
      using a by (simp add: cousub_csv_key_def zfill_plain)
  qed
qed


theorem join_key_rule_witness:
  "(''zcta'', 5) \<in> set spec_key_widths \<and> ascii ''FL-02134'' \<and> ascii ''n/a''
   \<and> normalize_value ''zcta'' ''FL-02134'' = ''02134'' \<and> zcta_csv_key ''FL-02134'' = Some ''02134''
   \<and> normalize_value ''zcta'' ''n/a'' = [] \<and> zcta_csv_key ''n/a'' = None
   \<and> (\<exists>c \<in> set (candidate_columns ''zcta'' None). c \<in> set (columns [(''ZIP'', [Str ''FL-02134'', Str ''n/a''])]))
   \<and> normalize_csv_key (\<lambda>c. case c of Str s \<Rightarrow> s | Num x \<Rightarrow> []) ''zcta''
        [(''ZIP'', [Str ''FL-02134'', Str ''n/a''])] None
      = Inr ([(''ZIP'', [Str ''FL-02134'', Str ''n/a'']), (''_J'', [Str ''02134'', Str []])], ''_J'')
   \<and> prepare_zcta_csv (\<lambda>c. case c of Str s \<Rightarrow> s | Num x \<Rightarrow> [])
        [(''ZIP'', [Str ''FL-02134'', Str ''n/a''])]
      = Inr [(''ZIP'', [Str ''FL-02134'', Str ''n/a'']), (''_ZCTA5'', [Str ''02134'', Num NaN])]"
proof -
  let ?csv = "[(''ZIP'', [Str ''FL-02134'', Str ''n/a''])] :: frame"
  let ?str = "\<lambda>c. case c of Str s \<Rightarrow> s | Num x \<Rightarrow> []"
  have p: "(''zcta'', 5) \<in> set spec_key_widths" by (simp add: spec_key_widths_def)
  have a: "ascii ''FL-02134''" "ascii ''n/a''" by (simp_all add: ascii_def)
  have d: "''FL-02134'' = ''FL-'' @ ''02134'' @ [] \<and> list_all (\<lambda>c. \<not> is_digit c) ''FL-''
      \<and> ''02134'' \<noteq> [] \<and> list_all is_digit ''02134'' \<and> ([] = [] \<or> \<not> is_digit (hd []))"
    by (simp add: is_digit_def)
  have n: "list_all (\<lambda>c. \<not> is_digit c) ''n/a''" by (simp add: is_digit_def)
  have c: "\<exists>c \<in> set (candidate_columns ''zcta'' None). c \<in> set (columns ?csv)"
    by (simp add: candidate_columns_def default_candidates_def columns_def)
  have r: "replicate (5 - length ''02134'') (CHR ''0'') @ ''02134'' = ''02134''" by code_simp
  note t1 = join_key_rule [OF p a(1), where pre = "''FL-''" and d = "''02134''" and rest = "[]"
      and csv = ?csv and provided = None and astype_str = ?str]
  note t2 = join_key_rule [OF p a(2), where csv = ?csv and provided = None and astype_str = ?str]
  have 1: "normalize_value ''zcta'' ''FL-02134'' = ''02134''"
    using t1 [THEN conjunct1, rule_format, OF d, THEN conjunct1] r by (rule trans)
  have 2: "zcta_csv_key ''FL-02134'' = Some ''02134''"
    using t1 [THEN conjunct1, rule_format, OF d, THEN conjunct2] r by simp
  have 3: "normalize_value ''zcta'' ''n/a'' = []"
    using t2 [THEN conjunct2, THEN conjunct1, rule_format, OF n, THEN conjunct1] .
  have 4: "zcta_csv_key ''n/a'' = None"
    using t2 [THEN conjunct2, THEN conjunct1, rule_format, OF n, THEN conjunct2, THEN conjunct1] .
  have 5: "\<exists>csv' key. key \<in> set (candidate_columns ''zcta'' None) \<and> key \<in> set (columns ?csv)
      \<and> normalize_csv_key ?str ''zcta'' ?csv None = Inr (csv', ''_J'')
      \<and> col csv' ''_J'' = map (\<lambda>v. Str (normalize_value ''zcta'' (?str v))) (col ?csv key)"
    using t2 [THEN conjunct2, THEN conjunct2, THEN conjunct2, THEN conjunct1, rule_format, OF c] .
  have 6: "normalize_csv_key ?str ''zcta'' ?csv None
      = Inr ([(''ZIP'', [Str ''FL-02134'', Str ''n/a'']), (''_J'', [Str ''02134'', Str []])], ''_J'')"
    by code_simp
  have 7: "prepare_zcta_csv ?str ?csv
      = Inr [(''ZIP'', [Str ''FL-02134'', Str ''n/a'']), (''_ZCTA5'', [Str ''02134'', Num NaN])]"
    by code_simp
  show ?thesis using p a 1 2 3 4 c 5 6 7 by (intro conjI)
qed

section \<open>Properties of the derived rates\<close>

lemma col_set_col_other: "c' \<noteq> c \<Longrightarrow> col (set_col df c v) c' = col df c'"
  by (simp add: col_def set_col_def update_conv')

lemma columns_set_col:
  "columns (set_col df c v) = (if c \<in> set (columns df) then columns df else columns df @ [c])"
  by (simp add: columns_def set_col_def update_keys)

lemma astype_float_Inr:
  "astype_float p cs = Inr xs \<Longrightarrow>
     length xs = length cs \<and> (\<forall>i < length cs. \<forall>x. cs ! i = Num x \<longrightarrow> xs ! i = x)"
proof (induction cs arbitrary: xs)
  case Nil
  then show ?case by simp
next
  case (Cons c cs)
  from Cons.prems obtain x ys where x: "(case c of Num x \<Rightarrow> Some x | Str s \<Rightarrow> p s) = Some x"
    and ys: "astype_float p cs = Inr ys" and xs: "xs = x # ys"
    by (auto split: option.splits sum.splits)
  from Cons.IH [OF ys] have ih: "length ys = length cs"
    "\<forall>i < length cs. \<forall>x. cs ! i = Num x \<longrightarrow> ys ! i = x" by simp_all
  show ?case
  proof (intro conjI allI impI)
    show "length xs = length (c # cs)" using xs ih by simp
    fix i y assume i: "i < length (c # cs)" and c: "(c # cs) ! i = Num y"
    show "xs ! i = y"
    proof (cases i)
      case 0
      with c x xs show ?thesis by simp
    next
      case (Suc j)
      with i c ih xs show ?thesis by simp
    qed
  qed
qed

lemma astype_float_Inl: "astype_float p cs = Inl e \<Longrightarrow> \<exists>s. e = BadFloat s"
  by (induction cs) (auto split: option.splits sum.splits)

lemma astype_float_numeric:
  "\<forall>c \<in> set cs. \<exists>x. c = Num x \<Longrightarrow> \<exists>xs. astype_float p cs = Inr xs"
  by (induction cs) auto

lemma where_series_nth:
  "i < length v \<Longrightarrow> i < length c \<Longrightarrow> where_series v c ! i = (if c ! i then v ! i else NaN)"
  by (simp add: where_series_def)

lemma length_where_series: "length (where_series v c) = min (length v) (length c)"
  by (simp add: where_series_def)

lemma rate_column_nth:
  "i < length num \<Longrightarrow> i < length hh \<Longrightarrow>
     map Num (where_series (map2 fdiv num hh) (map fgt0 hh)) ! i
       = Num (if fgt0 (hh ! i) then fdiv (num ! i) (hh ! i) else NaN)"
  by (simp add: where_series_nth length_where_series)

lemma compute_rates_present:
  assumes "list_all (\<lambda>c. c \<in> set (columns df)) needed"
  shows "compute_rates p df =
     (case astype_float p (col df ''Households'') of Inl e \<Rightarrow> Inl e | Inr hh \<Rightarrow>
      case astype_float p (col df ''Poverty Households'') of Inl e \<Rightarrow> Inl e | Inr pov \<Rightarrow>
      case astype_float p (col df ''ALICE Households'') of Inl e \<Rightarrow> Inl e | Inr alice \<Rightarrow>
        Inr (set_col (set_col (set_col df ''Below_ALICE_Rate''
                 (map Num (where_series (map2 fdiv (map2 fadd pov alice) hh) (map fgt0 hh))))
               ''Poverty_Rate'' (map Num (where_series (map2 fdiv pov hh) (map fgt0 hh))))
             ''ALICE_Rate'' (map Num (where_series (map2 fdiv alice hh) (map fgt0 hh)))))"
  using assms
  by (simp add: compute_rates_def Let_def col_set_col_other split: sum.splits)


text \<open>
  C4. When one of the columns Households, Poverty Households, ALICE Households is missing,
  the table is returned as it is. When all three are present and the conversion to float
  succeeds, the result has the columns of the input and the three rate columns, and in
  every row the rates are (Poverty Households + ALICE Households) / Households,
  Poverty Households / Households and ALICE Households / Households where the household
  count is positive, and null elsewhere; in particular all three are null in a row whose
  household count is zero. 100, 10 and 20 give 0.30, 0.10 and 0.20. The only error is that
  of the conversion to float, and there is none on numeric columns. \<open>compute_metrics\<close> of
  the command-line tool computes the same.
\<close>

theorem compute_rates_rows:
  "(\<not> set needed \<subseteq> set (columns df) \<longrightarrow> compute_rates p df = Inr df)
   \<and> (set needed \<subseteq> set (columns df) \<and> compute_rates p df = Inr df' \<longrightarrow>
        set (columns df') = set (columns df) \<union> {''Below_ALICE_Rate'', ''Poverty_Rate'', ''ALICE_Rate''}
      \<and> (i < length (col df ''Households'') \<and> col df ''Households'' ! i = Num hh
         \<and> i < length (col df ''Poverty Households'') \<and> col df ''Poverty Households'' ! i = Num pov
         \<and> i < length (col df ''ALICE Households'') \<and> col df ''ALICE Households'' ! i = Num alice
         \<longrightarrow> col df' ''Below_ALICE_Rate'' ! i = Num (if fgt0 hh then fdiv (fadd pov alice) hh else NaN)
           \<and> col df' ''Poverty_Rate'' ! i = Num (if fgt0 hh then fdiv pov hh else NaN)
           \<and> col df' ''ALICE_Rate'' ! i = Num (if fgt0 hh then fdiv alice hh else NaN)
           \<and> (hh = Fin 0 \<longrightarrow> col df' ''Below_ALICE_Rate'' ! i = Num NaN
                \<and> col df' ''Poverty_Rate'' ! i = Num NaN \<and> col df' ''ALICE_Rate'' ! i = Num NaN)))
   \<and> fdiv (fadd (Fin 10) (Fin 20)) (Fin 100) = Fin (3 / 10)
   \<and> fdiv (Fin 10) (Fin 100) = Fin (1 / 10) \<and> fdiv (Fin 20) (Fin 100) = Fin (2 / 10)
   \<and> compute_metrics p df = compute_rates p df
   \<and> (compute_rates p df = Inl e \<longrightarrow> (\<exists>s. e = BadFloat s))
   \<and> ((\<forall>c \<in> set needed. \<forall>v \<in> set (col df c). \<exists>x. v = Num x) \<longrightarrow> (\<exists>d. compute_rates p df = Inr d))"
proof (intro conjI impI)
  show "compute_rates p df = Inr df" if "\<not> set needed \<subseteq> set (columns df)"
    using that by (auto simp: compute_rates_def list_all_iff)
next
  assume a: "set needed \<subseteq> set (columns df) \<and> compute_rates p df = Inr df'"
  then have pr: "list_all (\<lambda>c. c \<in> set (columns df)) needed" by (auto simp: list_all_iff)
  from a compute_rates_present [OF pr, of p] obtain h pv al where
    h: "astype_float p (col df ''Households'') = Inr h"
    and pv: "astype_float p (col df ''Poverty Households'') = Inr pv"
    and al: "astype_float p (col df ''ALICE Households'') = Inr al"
    and d: "df' = set_col (set_col (set_col df ''Below_ALICE_Rate''
                 (map Num (where_series (map2 fdiv (map2 fadd pv al) h) (map fgt0 h))))
               ''Poverty_Rate'' (map Num (where_series (map2 fdiv pv h) (map fgt0 h))))
             ''ALICE_Rate'' (map Num (where_series (map2 fdiv al h) (map fgt0 h)))"
    by (auto split: sum.splits)
  show "set (columns df') = set (columns df) \<union> {''Below_ALICE_Rate'', ''Poverty_Rate'', ''ALICE_Rate''}"
    unfolding d by (auto simp: columns_set_col)
  have cB: "col df' ''Below_ALICE_Rate'' = map Num (where_series (map2 fdiv (map2 fadd pv al) h) (map fgt0 h))"
    unfolding d by (simp add: col_set_col_other col_set_col)
  have cP: "col df' ''Poverty_Rate'' = map Num (where_series (map2 fdiv pv h) (map fgt0 h))"
    unfolding d by (simp add: col_set_col_other col_set_col)
  have cA: "col df' ''ALICE_Rate'' = map Num (where_series (map2 fdiv al h) (map fgt0 h))"
    unfolding d by (simp add: col_set_col)
  assume r: "i < length (col df ''Households'') \<and> col df ''Households'' ! i = Num hh
         \<and> i < length (col df ''Poverty Households'') \<and> col df ''Poverty Households'' ! i = Num pov
         \<and> i < length (col df ''ALICE Households'') \<and> col df ''ALICE Households'' ! i = Num alice"
  have lh: "i < length h" "h ! i = hh" using astype_float_Inr [OF h] r by auto
  have lp: "i < length pv" "pv ! i = pov" using astype_float_Inr [OF pv] r by auto
  have la: "i < length al" "al ! i = alice" using astype_float_Inr [OF al] r by auto
  show B: "col df' ''Below_ALICE_Rate'' ! i = Num (if fgt0 hh then fdiv (fadd pov alice) hh else NaN)"
    unfolding cB using lh lp la by (simp add: rate_column_nth)
  show P: "col df' ''Poverty_Rate'' ! i = Num (if fgt0 hh then fdiv pov hh else NaN)"
    unfolding cP using lh lp by (simp add: rate_column_nth)
  show A: "col df' ''ALICE_Rate'' ! i = Num (if fgt0 hh then fdiv alice hh else NaN)"
    unfolding cA using lh la by (simp add: rate_column_nth)
  assume "hh = Fin 0"
  then show "col df' ''Below_ALICE_Rate'' ! i = Num NaN" "col df' ''Poverty_Rate'' ! i = Num NaN"
    "col df' ''ALICE_Rate'' ! i = Num NaN"
    using B P A by simp_all
next
  show "fdiv (fadd (Fin 10) (Fin 20)) (Fin 100) = Fin (3 / 10)" by simp
  show "fdiv (Fin 10) (Fin 100) = Fin (1 / 10)" by simp
  show "fdiv (Fin 20) (Fin 100) = Fin (2 / 10)" by simp
  show "compute_metrics p df = compute_rates p df" by (simp add: compute_metrics_def)
next
  assume "compute_rates p df = Inl e"
  then show "\<exists>s. e = BadFloat s"
    by (auto simp: compute_rates_def Let_def split: if_splits sum.splits dest: astype_float_Inl)
next
  assume n: "\<forall>c \<in> set needed. \<forall>v \<in> set (col df c). \<exists>x. v = Num x"
  show "\<exists>d. compute_rates p df = Inr d"
  proof (cases "list_all (\<lambda>c. c \<in> set (columns df)) needed")
    case False
    then show ?thesis by (simp add: compute_rates_def)
  next
    case True
    from n obtain h where h: "astype_float p (col df ''Households'') = Inr h"
      using astype_float_numeric [of "col df ''Households''" p] by (auto simp: needed_def)
    from n obtain pv where pv: "astype_float p (col df ''Poverty Households'') = Inr pv"
      using astype_float_numeric [of "col df ''Poverty Households''" p] by (auto simp: needed_def)
    from n obtain al where al: "astype_float p (col df ''ALICE Households'') = Inr al"
      using astype_float_numeric [of "col df ''ALICE Households''" p] by (auto simp: needed_def)
    show ?thesis by (simp add: compute_rates_present [OF True] h pv al)
  qed
qed


lemma example_rates:
  "compute_rates (\<lambda>s. None) example_frame =
     Inr (example_frame @
       [(''Below_ALICE_Rate'', [Num (Fin (3 / 10)), Num NaN]),
        (''Poverty_Rate'', [Num (Fin (1 / 10)), Num NaN]),
        (''ALICE_Rate'', [Num (Fin (2 / 10)), Num NaN])])"
  by (simp add: compute_rates_def example_frame_def needed_def columns_def col_def set_col_def
      where_series_def)

theorem compute_rates_rows_witness:
  "set needed \<subseteq> set (columns example_frame)
   \<and> compute_rates (\<lambda>s. None) example_frame =
       Inr (example_frame @
         [(''Below_ALICE_Rate'', [Num (Fin (3 / 10)), Num NaN]),
          (''Poverty_Rate'', [Num (Fin (1 / 10)), Num NaN]),
          (''ALICE_Rate'', [Num (Fin (2 / 10)), Num NaN])])
   \<and> col example_frame ''Households'' ! 1 = Num (Fin 0)
   \<and> col (example_frame @
         [(''Below_ALICE_Rate'', [Num (Fin (3 / 10)), Num NaN]),
          (''Poverty_Rate'', [Num (Fin (1 / 10)), Num NaN]),
          (''ALICE_Rate'', [Num (Fin (2 / 10)), Num NaN])]) ''Below_ALICE_Rate'' ! 1 = Num NaN"
proof -
  let ?d = "example_frame @
         [(''Below_ALICE_Rate'', [Num (Fin (3 / 10)), Num NaN]),
          (''Poverty_Rate'', [Num (Fin (1 / 10)), Num NaN]),
          (''ALICE_Rate'', [Num (Fin (2 / 10)), Num NaN])]"
  have n: "set needed \<subseteq> set (columns example_frame)"
    by (simp add: needed_def columns_def example_frame_def)
  have r: "1 < length (col example_frame ''Households'') \<and> col example_frame ''Households'' ! 1 = Num (Fin 0)
         \<and> 1 < length (col example_frame ''Poverty Households'')
         \<and> col example_frame ''Poverty Households'' ! 1 = Num (Fin 0)
         \<and> 1 < length (col example_frame ''ALICE Households'')
         \<and> col example_frame ''ALICE Households'' ! 1 = Num (Fin 0)"
    by (simp add: col_def example_frame_def)
  have "col ?d ''Below_ALICE_Rate'' ! 1 = Num NaN"
    using compute_rates_rows [of example_frame "\<lambda>s. None" ?d 1 "Fin 0" "Fin 0" "Fin 0"]
      n example_rates r by simp
  then show ?thesis using n example_rates r by simp
qed

section \<open>Properties of the source resolver\<close>

lemma requests_Cons_Head [simp]: "requests (Head u r # ev) = Head u r # requests ev"
  by (simp add: requests_def)

lemma requests_Cons_Sleep [simp]: "requests (Sleep d # ev) = requests ev"
  by (simp add: requests_def)

lemma requests_Nil [simp]: "requests [] = []"
  by (simp add: requests_def)

lemma requests_append [simp]: "requests (ev @ ev') = requests ev @ requests ev'"
  by (simp add: requests_def)















section \<open>Properties of the fetch layer, of offline mode and of the best-effort steps\<close>

lemma find_first:
  "find P xs = Some x \<Longrightarrow> \<exists>pre post. xs = pre @ x # post \<and> P x \<and> (\<forall>y \<in> set pre. \<not> P y)"
  by (auto simp: find_Some_iff in_set_conv_nth) (metis id_take_nth_drop nth_take length_take min.absorb4 in_set_conv_nth)

lemma fetch_503_retried:
  "download_to_temp default_config (\<lambda>p. False) True (\<lambda>t u. Status 503) 0 place_url
     = (Inl (FetchFailed (Status 503)),
        [Get place_url (Status 503), Sleep 2, Get place_url (Status 503), Sleep 4,
         Get place_url (Status 503), Sleep 8, Get place_url (Status 503), Sleep 16,
         Get place_url (Status 503), Sleep 32, Get place_url (Status 503)])"
  by code_simp

lemma fetch_after_transient:
  "download_to_temp default_config (\<lambda>p. False) True
       (\<lambda>t u. if t = 0 then ConnError else Status 200) 0 place_url
     = (Inr TempPath, [Get place_url ConnError, Sleep 2, Get place_url (Status 200)])"
  by code_simp

text \<open>
  C1, on the code: a status 404 is not fatal at once. With the default settings, a URL that
  is not cached and answers 404 every time is requested six times, with sleeps of 2, 4, 8,
  16 and 32 seconds in between, before \<open>FetchFailed\<close> is raised: the same trace as for
  503. \<^verbatim>\<open>download\<close> of \<^verbatim>\<open>prefetch_tiger.py\<close> does the same.
\<close>

theorem fetch_404_retried:
  "download_to_temp default_config (\<lambda>p. False) True (\<lambda>t u. Status 404) 0 place_url
     = (Inl (FetchFailed (Status 404)),
        [Get place_url (Status 404), Sleep 2, Get place_url (Status 404), Sleep 4,
         Get place_url (Status 404), Sleep 8, Get place_url (Status 404), Sleep 16,
         Get place_url (Status 404), Sleep 32, Get place_url (Status 404)])
   \<and> download 6 2 (\<lambda>p. False) (\<lambda>t u. Status 404) 0 place_url ''cache''
     = (Inl (FetchFailed (Status 404)),
        [Get place_url (Status 404), Sleep 2, Get place_url (Status 404), Sleep 4,
         Get place_url (Status 404), Sleep 8, Get place_url (Status 404), Sleep 16,
         Get place_url (Status 404), Sleep 32, Get place_url (Status 404)])"
  by code_simp

lemma offline_fetch_no_request:
  assumes "OFFLINE cfg"
  shows "snd (download_to_temp cfg exists replace_ok net t url) = []
     \<and> (fst (download_to_temp cfg exists replace_ok net t url) = Inl (OfflineFetchDenied url)
        \<or> (\<exists>c. cache_path_for cfg url = Some c \<and> exists c
              \<and> fst (download_to_temp cfg exists replace_ok net t url) = Inr (CachePath c)))"
  using assms by (auto simp: download_to_temp_def Let_def split: option.splits)

lemma offline_resolve_cached:
  assumes "OFFLINE cfg" "CACHE_DIR cfg = Some d" "d \<noteq> []"
  shows "snd (resolve_first_available cfg exists net t urls) = []
     \<and> (\<forall>u. fst (resolve_first_available cfg exists net t urls) = Inr u \<longrightarrow>
           (\<exists>pre post. urls = pre @ u # post \<and> exists (path_join d (basename u))
               \<and> (\<forall>v \<in> set pre. \<not> exists (path_join d (basename v)))))
     \<and> (\<forall>e. fst (resolve_first_available cfg exists net t urls) = Inl e \<longrightarrow>
           e = OfflineCacheMiss \<and> (\<forall>v \<in> set urls. \<not> exists (path_join d (basename v))))"
proof -
  let ?P = "\<lambda>u. case cache_path_for cfg u of None \<Rightarrow> False | Some cpath \<Rightarrow> exists cpath"
  have P: "?P u = exists (path_join d (basename u))" for u
    using assms by (simp add: cache_path_for_def)
  have r: "resolve_first_available cfg exists net t urls =
      (case find ?P urls of Some u \<Rightarrow> (Inr u, []) | None \<Rightarrow> (Inl OfflineCacheMiss, []))"
    using assms by (simp add: resolve_first_available_def)
  show ?thesis
  proof (cases "find ?P urls")
    case None
    then have "\<forall>v \<in> set urls. \<not> ?P v" by (simp add: find_None_iff)
    then show ?thesis using r None P by simp
  next
    case (Some u)
    from find_first [OF Some] obtain pre post where
      "urls = pre @ u # post" "?P u" "\<forall>y \<in> set pre. \<not> ?P y" by blast
    then show ?thesis using r Some P by auto
  qed
qed

text \<open>
  C5, on the code: with offline mode on and no cache directory set, the source resolver
  does not fail with \<open>OfflineCacheMiss\<close>: it sends six probes to each of the four ZCTA
  candidates, while the fetch of the same URL is refused without any request.
\<close>

theorem offline_probes_network:
  "fst (resolve_first_available (default_config\<lparr>OFFLINE := True\<rparr>) (\<lambda>p. False) (\<lambda>t u. ConnError) 0 zcta_urls)
     = Inl (NoSourceAvailable zcta_urls)
   \<and> map event_url (requests (snd (resolve_first_available (default_config\<lparr>OFFLINE := True\<rparr>)
         (\<lambda>p. False) (\<lambda>t u. ConnError) 0 zcta_urls)))
     = concat (map (replicate 6) zcta_urls)
   \<and> download_to_temp (default_config\<lparr>OFFLINE := True\<rparr>) (\<lambda>p. False) True (\<lambda>t u. ConnError) 0 (hd zcta_urls)
     = (Inl (OfflineFetchDenied (hd zcta_urls)), [])"
  by code_simp

text \<open>
  The blocks under \<^verbatim>\<open>try\<close>: whichever step of the state filter of \<^verbatim>\<open>prepare_zcta\<close>
  raises an exception (loading the state polygon, \<^verbatim>\<open>set_geometry\<close>, the centroid test),
  the filter returns the unfiltered table, and it never raises an exception itself. When
  the simplification raises an exception, in the command-line tool or in \<^verbatim>\<open>/join\<close>, the
  unsimplified table is returned. Exceptions are the instances of \<^verbatim>\<open>Exception\<close>.
\<close>

lemma best_effort_swallowed:
  "(state_poly = Inl (Exception m)
      \<longrightarrow> zcta_state_filter state_poly set_geometry centroid_within merged = Inr merged)
   \<and> (state_poly = Inr poly \<and> set_geometry merged = Inl (Exception m)
      \<longrightarrow> zcta_state_filter state_poly set_geometry centroid_within merged = Inr merged)
   \<and> (state_poly = Inr poly \<and> set_geometry merged = Inr merged1
        \<and> centroid_within poly merged1 = Inl (Exception m)
      \<longrightarrow> zcta_state_filter state_poly set_geometry centroid_within merged = Inr merged1)
   \<and> (zcta_state_filter state_poly set_geometry centroid_within merged \<noteq> Inl (Exception m))
   \<and> (simplify s gdf = Inl (Exception m)
      \<longrightarrow> simplify_step simplify (Some s) has_geometry gdf = Inr gdf)
   \<and> (simplify_step simplify tol has_geometry gdf \<noteq> Inl (Exception m))"
  by (auto simp: zcta_state_filter_def simplify_step_def split: sum.splits exn.splits option.splits)

lemma best_effort_swallowed_example:
  "zcta_state_filter (Inl (Exception ''no shapely'') :: exn + unit) Inr (\<lambda>p t. Inr (tl t)) [''32003'', ''89101'']
     = Inr [''32003'', ''89101'']
   \<and> zcta_state_filter (Inr ()) Inr (\<lambda>p t. Inl (Exception ''within failed'')) [''32003'', ''89101'']
     = Inr [''32003'', ''89101'']
   \<and> simplify_step (\<lambda>s g. Inl (Exception ''simplify failed'')) (Some (1 / 2000)) True [''32003'']
     = Inr [''32003'']"
  using best_effort_swallowed [of "Inl (Exception ''no shapely'') :: exn + unit" "''no shapely''" Inr
      "\<lambda>p t. Inr (tl t)" "[''32003'', ''89101'']" "()" "[''32003'', ''89101'']"
      "\<lambda>s g. Inl (Exception ''simplify failed'')" "1 / 2000" "[''32003'']" True None]
    best_effort_swallowed [of "Inr ()" "''within failed''" Inr
      "\<lambda>p t. Inl (Exception ''within failed'')" "[''32003'', ''89101'']" "()" "[''32003'', ''89101'']"
      "\<lambda>s g. Inl (Exception ''simplify failed'')" "1 / 2000" "[''32003'']" True None]
    best_effort_swallowed [of "Inr ()" "''simplify failed''" Inr
      "\<lambda>p t. Inl (Exception ''within failed'')" "[''32003'', ''89101'']" "()" "[''32003'', ''89101'']"
      "\<lambda>s g. Inl (Exception ''simplify failed'')" "1 / 2000" "[''32003'']" True None]
  by simp

text \<open>
  C7, on the code: the ZCTA filter of the serving layer is not best-effort. When getting
  the state polygon raises (the state archive is not in the cache, or the state has no
  polygon in it), or when the centroid test raises, \<^verbatim>\<open>load_boundary\<close> raises too, and
  \<^verbatim>\<open>/join\<close> and \<^verbatim>\<open>/boundaries\<close> with it; on the same failure the filter of the
  command-line tool returns the unfiltered table.
\<close>

theorem serving_filter_propagates:
  "load_boundary_zcta ''FL'' (Inr ()) (Inl (Exception ''state archive not in cache''))
       (\<lambda>g t. Inr t) [''32003'', ''89101'']
     = Inl (Exception ''state archive not in cache'')
   \<and> load_boundary_zcta ''SOUTH'' (Inr ()) (Inr ())
       (\<lambda>g t. Inl (Exception ''within failed'')) [''32003'', ''89101'']
     = Inl (Exception ''within failed'')
   \<and> zcta_state_filter (Inl (Exception ''state archive not in cache'') :: exn + unit) Inr
       (\<lambda>g t. Inr t) [''32003'', ''89101'']
     = Inr [''32003'', ''89101'']"
  by (simp add: load_boundary_zcta_def zcta_state_filter_def REGION_TOKENS_def)

end
